theory Spec2Isabelle
  imports Main "HOL-Library.AList" "HOL-Library.Sublist"
begin

section \<open>The model repository updater, \<^verbatim>\<open>tools/update_model_repo.py\<close>\<close>

text \<open>
  The script has two operations, \<^verbatim>\<open>copyUpdatedModels\<close> and \<^verbatim>\<open>updateMapFile\<close>.
  Both are loops over \<^verbatim>\<open>os.walk\<close> whose bodies call the Python 2.7 standard library
  (\<^verbatim>\<open>os.path\<close>, \<^verbatim>\<open>filecmp\<close>, \<^verbatim>\<open>shutil\<close>, \<^verbatim>\<open>json\<close>, \<^verbatim>\<open>dict\<close>). The library
  functions are embedded here from their Python 2.7 sources (POSIX flavour), the two
  operations from the script.

  Conventions of the embedding:
  \<^item> A path is the list of the components of its absolute, normalised form, that is
    what \<^verbatim>\<open>os.path.abspath\<close> returns, split at \<^verbatim>\<open>/\<close>; the root directory is \<open>[]\<close>.
    \<^verbatim>\<open>os.path.join(root, filename)\<close> is \<open>root @ [filename]\<close>.
  \<^item> The file system is a tree of directories and regular files (no links, no special
    files). A directory keeps its entries in the order \<^verbatim>\<open>os.listdir\<close> returns them.
  \<^item> A raised exception is a value \<open>Inl e\<close>; printing is a list of notices.
  \<^item> Python strings are compared character by character (names are taken as ASCII,
    where Python 2 \<^verbatim>\<open>str\<close> and \<^verbatim>\<open>unicode\<close> compare equal).
  \<^item> What the map file holds is an argument of its own, given by what
    \<^verbatim>\<open>os.path.exists\<close>, \<^verbatim>\<open>open\<close> and \<^verbatim>\<open>json.load\<close> make of it; whether it can be
    opened for writing is read from the file system. The updater's result is the value
    that \<^verbatim>\<open>json.dump\<close> writes.
\<close>

subsection \<open>Exceptions and notices\<close>

datatype error =
    OSError | IOError | ShutilError | KeyError | TypeError | AttributeError | ValueError

type_synonym path = "string list"

datatype notice =
    Copying string path
  | NewModel string
  | NewDuplicate string
  | WroteMapFile path
  | TotalComponents nat

text \<open>A \<^verbatim>\<open>for\<close> loop whose body may raise: the first exception ends the loop.\<close>

fun for_each :: "('a \<Rightarrow> 's \<Rightarrow> error + 's) \<Rightarrow> 'a list \<Rightarrow> 's \<Rightarrow> error + 's" where
  "for_each body [] s = Inr s"
| "for_each body (x # xs) s =
     (case body x s of Inl e \<Rightarrow> Inl e | Inr s' \<Rightarrow> for_each body xs s')"

subsection \<open>\<^verbatim>\<open>os.path.splitext\<close>\<close>

text \<open>
  \<^verbatim>\<open>str.rfind\<close> for a single character: the highest index holding it, or \<open>-1\<close>.
\<close>

fun rfind :: "char \<Rightarrow> string \<Rightarrow> int" where
  "rfind c [] = - 1"
| "rfind c (x # xs) =
     (let r = rfind c xs in if 0 \<le> r then r + 1 else if x = c then 0 else - 1)"

text \<open>
  \<^verbatim>\<open>genericpath._splitext(p, sep='/', altsep=None, extsep='.')\<close>:
  \<^verbatim>\<open>
    sepIndex = p.rfind(sep)
    dotIndex = p.rfind(extsep)
    if dotIndex > sepIndex:
        # skip all leading dots
        filenameIndex = sepIndex + 1
        while filenameIndex < dotIndex:
            if p[filenameIndex] != extsep:
                return p[:dotIndex], p[dotIndex:]
            filenameIndex += 1
    return p, ''
  \<close>
  \<open>skip_dots\<close> is the \<^verbatim>\<open>while\<close> loop; it answers whether the loop returns the split.
\<close>

function skip_dots :: "string \<Rightarrow> nat \<Rightarrow> nat \<Rightarrow> bool" where
  "skip_dots p filenameIndex dotIndex =
     (if filenameIndex < dotIndex
      then (if p ! filenameIndex \<noteq> CHR ''.'' then True
            else skip_dots p (filenameIndex + 1) dotIndex)
      else False)"
  by pat_completeness auto
termination
  by (relation "measure (\<lambda>(p, filenameIndex, dotIndex). dotIndex - filenameIndex)") auto

declare skip_dots.simps [simp del]

definition splitext :: "string \<Rightarrow> string \<times> string" where
  "splitext p =
     (let sepIndex = rfind CHR ''/'' p;
          dotIndex = rfind CHR ''.'' p
      in if dotIndex > sepIndex \<and> skip_dots p (nat (sepIndex + 1)) (nat dotIndex)
         then (take (nat dotIndex) p, drop (nat dotIndex) p)
         else (p, ''''))"

text \<open>The test \<^verbatim>\<open>ext in ['.stl', '.STL']\<close> of both loops.\<close>

definition model_ext :: "string \<Rightarrow> bool" where
  "model_ext ext = (ext \<in> set [''.stl'', ''.STL''])"

subsection \<open>Paths: \<^verbatim>\<open>normpath\<close>, \<^verbatim>\<open>dirname\<close>, \<^verbatim>\<open>relpath\<close>\<close>

text \<open>
  The component loop of \<^verbatim>\<open>posixpath.normpath\<close> for an absolute path
  (\<^verbatim>\<open>initial_slashes\<close> is true):
  \<^verbatim>\<open>
    for comp in comps:
        if comp in ('', '.'):
            continue
        if (comp != '..' or (not initial_slashes and not new_comps) or
             (new_comps and new_comps[-1] == '..')):
            new_comps.append(comp)
        elif new_comps:
            new_comps.pop()
  \<close>
\<close>

fun normpath_loop :: "string list \<Rightarrow> string list \<Rightarrow> string list" where
  "normpath_loop new_comps [] = new_comps"
| "normpath_loop new_comps (c # comps) =
     (if c \<in> set ['''', ''.''] then normpath_loop new_comps comps
      else if c \<noteq> ''..'' \<or> (new_comps \<noteq> [] \<and> last new_comps = ''..'')
        then normpath_loop (new_comps @ [c]) comps
      else if new_comps \<noteq> [] then normpath_loop (butlast new_comps) comps
      else normpath_loop new_comps comps)"

definition normpath :: "string list \<Rightarrow> path" where
  "normpath comps = normpath_loop [] comps"

text \<open>\<^verbatim>\<open>os.path.dirname\<close> of an absolute normalised path drops the last component.\<close>

definition dirname :: "path \<Rightarrow> path" where
  "dirname p = butlast p"

text \<open>
  \<^verbatim>\<open>posixpath.relpath(path, start)\<close>:
  \<^verbatim>\<open>
    start_list = [x for x in abspath(start).split(sep) if x]
    path_list = [x for x in abspath(path).split(sep) if x]
    i = len(commonprefix([start_list, path_list]))
    rel_list = [pardir] * (len(start_list)-i) + path_list[i:]
    if not rel_list:
        return curdir
    return join(*rel_list)
  \<close>
\<close>

fun commonprefix_len :: "'a list \<Rightarrow> 'a list \<Rightarrow> nat" where
  "commonprefix_len (x # xs) (y # ys) = (if x = y then Suc (commonprefix_len xs ys) else 0)"
| "commonprefix_len _ _ = 0"

definition rel_list :: "path \<Rightarrow> path \<Rightarrow> string list" where
  "rel_list p start =
     (let i = commonprefix_len start p
      in replicate (length start - i) ''..'' @ drop i p)"

text \<open>\<^verbatim>\<open>join(*comps)\<close> for components that are not empty and hold no \<^verbatim>\<open>/\<close>.\<close>

fun join_comps :: "string list \<Rightarrow> string" where
  "join_comps [] = ''''"
| "join_comps [c] = c"
| "join_comps (c # cs) = c @ ''/'' @ join_comps cs"

definition relpath :: "path \<Rightarrow> path \<Rightarrow> string" where
  "relpath p start =
     (let rl = rel_list p start in if rl = [] then ''.'' else join_comps rl)"

text \<open>\<^verbatim>\<open>str.split('/')\<close>, which reads a stored relative path back into components.\<close>

fun split_sep :: "string \<Rightarrow> string list" where
  "split_sep [] = [[]]"
| "split_sep (c # cs) =
     (if c = CHR ''/'' then [] # split_sep cs
      else (case split_sep cs of w # ws \<Rightarrow> (c # w) # ws | [] \<Rightarrow> [[c]]))"

subsection \<open>The file system\<close>

text \<open>
  A regular file has its bytes and its modification time (\<^verbatim>\<open>st_mtime\<close>); its size is
  the length of its bytes.
\<close>

datatype node = File string int | Dir "(string \<times> node) list"

fun lookup :: "node \<Rightarrow> path \<Rightarrow> node option" where
  "lookup n [] = Some n"
| "lookup n (c # cs) =
     (case n of
        File _ _ \<Rightarrow> None
      | Dir es \<Rightarrow> (case map_of es c of None \<Rightarrow> None | Some n' \<Rightarrow> lookup n' cs))"

definition exists :: "node \<Rightarrow> path \<Rightarrow> bool" where
  "exists fs p = (lookup fs p \<noteq> None)"

definition isdir :: "node \<Rightarrow> path \<Rightarrow> bool" where
  "isdir fs p = (case lookup fs p of Some (Dir _) \<Rightarrow> True | _ \<Rightarrow> False)"

text \<open>
  \<^verbatim>\<open>os.listdir\<close>, followed by the split of \<^verbatim>\<open>os.walk\<close> into directories and the rest;
  \<open>None\<close> when \<^verbatim>\<open>listdir\<close> raises (the path is missing or is not a directory).
\<close>

definition listdir :: "node \<Rightarrow> path \<Rightarrow> (string list \<times> string list) option" where
  "listdir fs topdir =
     (case lookup fs topdir of
        Some (Dir es) \<Rightarrow>
          Some (filter (\<lambda>name. isdir fs (topdir @ [name])) (map fst es),
                filter (\<lambda>name. \<not> isdir fs (topdir @ [name])) (map fst es))
      | _ \<Rightarrow> None)"

text \<open>
  \<^verbatim>\<open>filecmp.cmp(f1, f2)\<close> with its default \<^verbatim>\<open>shallow=1\<close>:
  \<^verbatim>\<open>
    s1 = _sig(os.stat(f1))      # (S_IFMT(st_mode), st_size, st_mtime)
    s2 = _sig(os.stat(f2))
    if s1[0] != stat.S_IFREG or s2[0] != stat.S_IFREG:
        return False
    if shallow and s1 == s2:
        return True
    if s1[1] != s2[1]:
        return False
    ... return _do_cmp(f1, f2)  # byte by byte
  \<close>
  \<^verbatim>\<open>os.stat\<close> raises \<^verbatim>\<open>OSError\<close> on a missing file. (The result cache of \<^verbatim>\<open>filecmp\<close> is
  keyed by both names and both signatures; one run compares a pair of names once.)
\<close>

definition cmp :: "node \<Rightarrow> path \<Rightarrow> path \<Rightarrow> error + bool" where
  "cmp fs f1 f2 =
     (case (lookup fs f1, lookup fs f2) of
        (Some n1, Some n2) \<Rightarrow>
          (case (n1, n2) of
             (File b1 t1, File b2 t2) \<Rightarrow>
               if length b1 = length b2 \<and> t1 = t2 then Inr True
               else if length b1 \<noteq> length b2 then Inr False
               else Inr (b1 = b2)
           | _ \<Rightarrow> Inr False)
      | _ \<Rightarrow> Inl OSError)"

text \<open>
  \<^verbatim>\<open>os.makedirs(name)\<close> creates \<open>name\<close> and every missing directory above it; it raises
  \<^verbatim>\<open>OSError\<close> when \<open>name\<close> exists or when a component above it is a regular file.
\<close>

fun new_dirs :: "path \<Rightarrow> node" where
  "new_dirs [] = Dir []"
| "new_dirs (c # cs) = Dir [(c, new_dirs cs)]"

fun makedirs :: "node \<Rightarrow> path \<Rightarrow> error + node" where
  "makedirs n [] = Inl OSError"
| "makedirs n (c # cs) =
     (case n of
        File _ _ \<Rightarrow> Inl OSError
      | Dir es \<Rightarrow>
          (case map_of es c of
             None \<Rightarrow> Inr (Dir (es @ [(c, new_dirs cs)]))
           | Some n' \<Rightarrow>
               (case makedirs n' cs of
                  Inl e \<Rightarrow> Inl e
                | Inr n'' \<Rightarrow> Inr (Dir (AList.update c n'' es)))))"

text \<open>
  Writing a regular file at a path (\<^verbatim>\<open>open(dst, 'wb')\<close>, the bytes, then the times set
  by \<^verbatim>\<open>copystat\<close>): \<^verbatim>\<open>IOError\<close> when the path is a directory, when its directory is
  missing, or when a component above it is a regular file.
\<close>

fun put :: "node \<Rightarrow> path \<Rightarrow> node \<Rightarrow> error + node" where
  "put n [] new = (case n of Dir _ \<Rightarrow> Inl IOError | File _ _ \<Rightarrow> Inr new)"
| "put n (c # cs) new =
     (case n of
        File _ _ \<Rightarrow> Inl IOError
      | Dir es \<Rightarrow>
          (case map_of es c of
             None \<Rightarrow> if cs = [] then Inr (Dir (es @ [(c, new)])) else Inl IOError
           | Some n' \<Rightarrow>
               (case put n' cs new of
                  Inl e \<Rightarrow> Inl e
                | Inr n'' \<Rightarrow> Inr (Dir (AList.update c n'' es)))))"

text \<open>
  \<^verbatim>\<open>shutil.copy2(src, dst)\<close>:
  \<^verbatim>\<open>
    if os.path.isdir(dst):
        dst = os.path.join(dst, os.path.basename(src))
    copyfile(src, dst)      # Error if both name the same file; open src, open dst
    copystat(src, dst)      # the copy gets the modification time of src
  \<close>
\<close>

definition copy2 :: "node \<Rightarrow> path \<Rightarrow> path \<Rightarrow> error + node" where
  "copy2 fs src dst =
     (let dst' = (if isdir fs dst then dst @ [last src] else dst)
      in if src = dst' \<and> exists fs src then Inl ShutilError
         else (case lookup fs src of
                 Some (File b t) \<Rightarrow> put fs dst' (File b t)
               | _ \<Rightarrow> Inl IOError))"

subsection \<open>\<^verbatim>\<open>copyUpdatedModels\<close>\<close>

text \<open>
  The body of the inner loop (lines 17 to 31) for one \<open>filename\<close> of the directory
  \<open>root\<close>. \<^verbatim>\<open>os.path.relpath(root, start=source_root)\<close> is kept as its component list,
  which \<^verbatim>\<open>os.path.abspath(os.path.join(destination_root, ...))\<close> appends and normalises.
  The state is the file system and the notices printed so far.
\<close>

definition copy_model ::
  "path \<Rightarrow> path \<Rightarrow> path \<Rightarrow> string \<Rightarrow> node \<times> notice list \<Rightarrow> error + node \<times> notice list" where
  "copy_model source_root destination_root root filename st =
     (case st of (fs, out) \<Rightarrow>
      (case splitext filename of (model_name, ext) \<Rightarrow>
       if model_ext ext then
         (let model_source_file_path = root @ [filename];
              destination_sub_dir = rel_list root source_root;
              destination_abs_dir = normpath (destination_root @ destination_sub_dir);
              model_destination_file_path = destination_abs_dir @ [filename]
          in case (if \<not> exists fs model_destination_file_path then Inr True
                   else (case cmp fs model_source_file_path model_destination_file_path of
                           Inl e \<Rightarrow> Inl e
                         | Inr same \<Rightarrow> Inr (\<not> same))) of
               Inl e \<Rightarrow> Inl e
             | Inr False \<Rightarrow> Inr st
             | Inr True \<Rightarrow>
                 (case (if \<not> exists fs destination_abs_dir
                        then makedirs fs destination_abs_dir else Inr fs) of
                    Inl e \<Rightarrow> Inl e
                  | Inr fs1 \<Rightarrow>
                      (case copy2 fs1 model_source_file_path model_destination_file_path of
                         Inl e \<Rightarrow> Inl e
                       | Inr fs2 \<Rightarrow>
                           Inr (fs2, out @ [Copying model_name model_source_file_path]))))
       else Inr st))"

text \<open>
  \<^verbatim>\<open>os.walk(source_root)\<close> is a generator: a directory is listed when the walk reaches
  it, after the loop body has run on everything before it, and a failing \<^verbatim>\<open>listdir\<close> is
  ignored (\<^verbatim>\<open>onerror=None\<close>). \<open>pending\<close> is the stack of the generator's frames, each
  holding the directories it has still to walk. The body writes to the file system that is
  being walked, so the loop is a partial function: \<open>None\<close> is a walk that never ends.
\<close>

partial_function (option) walk_copy ::
  "path \<Rightarrow> path \<Rightarrow> path list list \<Rightarrow> node \<times> notice list
     \<Rightarrow> (error + node \<times> notice list) option" where
  "walk_copy source_root destination_root pending st =
     (case pending of
        [] \<Rightarrow> Some (Inr st)
      | [] # rest \<Rightarrow> walk_copy source_root destination_root rest st
      | (topdir # others) # rest \<Rightarrow>
          (case listdir (fst st) topdir of
             None \<Rightarrow> walk_copy source_root destination_root (others # rest) st
           | Some (dirs, files) \<Rightarrow>
               (case for_each (copy_model source_root destination_root topdir) files st of
                  Inl e \<Rightarrow> Some (Inl e)
                | Inr st' \<Rightarrow>
                    walk_copy source_root destination_root
                      (map (\<lambda>name. topdir @ [name]) dirs # others # rest) st')))"

definition copyUpdatedModels ::
  "path \<Rightarrow> path \<Rightarrow> node \<Rightarrow> (error + node \<times> notice list) option" where
  "copyUpdatedModels source_root destination_root fs =
     walk_copy source_root destination_root [[source_root]] (fs, [])"

subsection \<open>The component map\<close>

text \<open>
  What \<^verbatim>\<open>json.load\<close> returns. An object is a Python \<^verbatim>\<open>dict\<close>, kept as an association
  list read with \<open>map_of\<close> and written with \<open>AList.update\<close>. A number is kept as its
  literal: the script never computes with one.
\<close>

datatype json =
    JNull | JBool bool | JNum string | JStr string
  | JArr "json list" | JObj "(string \<times> json) list"

text \<open>\<^verbatim>\<open>v[key]\<close> for a string key.\<close>

definition getitem :: "json \<Rightarrow> string \<Rightarrow> error + json" where
  "getitem v key =
     (case v of
        JObj members \<Rightarrow> (case map_of members key of None \<Rightarrow> Inl KeyError | Some x \<Rightarrow> Inr x)
      | _ \<Rightarrow> Inl TypeError)"

text \<open>
  \<^verbatim>\<open>v.setdefault(key, dflt)\<close>: the value under the key, stored first when the key is
  missing. The result is the dictionary after the call and the value.
\<close>

definition setdefault :: "json \<Rightarrow> string \<Rightarrow> json \<Rightarrow> error + json \<times> json" where
  "setdefault v key dflt =
     (case v of
        JObj members \<Rightarrow>
          (case map_of members key of
             None \<Rightarrow> Inr (JObj (AList.update key dflt members), dflt)
           | Some x \<Rightarrow> Inr (v, x))
      | _ \<Rightarrow> Inl AttributeError)"

text \<open>
  \<^verbatim>\<open>s in v\<close> for a string \<open>s\<close>: membership in a list, a substring test on a string, a
  key test on a dictionary, \<^verbatim>\<open>TypeError\<close> on anything else.
\<close>

definition contains :: "json \<Rightarrow> string \<Rightarrow> error + bool" where
  "contains v s =
     (case v of
        JArr xs \<Rightarrow> Inr (JStr s \<in> set xs)
      | JStr t \<Rightarrow> Inr (sublist s t)
      | JObj members \<Rightarrow> Inr (map_of members s \<noteq> None)
      | _ \<Rightarrow> Inl TypeError)"

text \<open>\<^verbatim>\<open>v.append(x)\<close>: only a list has the method.\<close>

definition py_append :: "json \<Rightarrow> json \<Rightarrow> error + json" where
  "py_append v x = (case v of JArr xs \<Rightarrow> Inr (JArr (xs @ [x])) | _ \<Rightarrow> Inl AttributeError)"

text \<open>\<^verbatim>\<open>len(v)\<close>; a dictionary counts its keys.\<close>

definition py_len :: "json \<Rightarrow> error + nat" where
  "py_len v =
     (case v of
        JObj al \<Rightarrow> Inr (length (remdups (map fst al)))
      | JArr xs \<Rightarrow> Inr (length xs)
      | JStr t \<Rightarrow> Inr (length t)
      | _ \<Rightarrow> Inl TypeError)"

subsection \<open>\<^verbatim>\<open>updateMapFile\<close>\<close>

text \<open>
  The body of the inner loop (lines 47 to 62) for one \<open>filename\<close> of the directory
  \<open>root\<close>. The state is the component map and the notices printed so far. The list that
  \<^verbatim>\<open>setdefault\<close> returns is the one stored in the entry, so appending to it changes the
  entry, and the entry is the one stored in the map.
\<close>

definition index_model ::
  "path \<Rightarrow> path \<Rightarrow> string \<Rightarrow> json \<times> notice list \<Rightarrow> error + json \<times> notice list" where
  "index_model map_file_path root filename st =
     (case st of (component_map, out) \<Rightarrow>
      (case splitext filename of (model_name, ext) \<Rightarrow>
       if model_ext ext then
         (let model_file_abspath = root @ [filename];
              model_file_relpath = relpath model_file_abspath (dirname map_file_path)
          in case component_map of
               JObj al \<Rightarrow>
                 (case map_of al model_name of
                    Some entry \<Rightarrow>
                      (case getitem entry ''filename'' of
                         Inl e \<Rightarrow> Inl e
                       | Inr recorded \<Rightarrow>
                           if recorded \<noteq> JStr model_file_relpath then
                             (case setdefault entry ''duplicates'' (JArr []) of
                                Inl e \<Rightarrow> Inl e
                              | Inr (entry1, dupes) \<Rightarrow>
                                  (case contains dupes model_file_relpath of
                                     Inl e \<Rightarrow> Inl e
                                   | Inr True \<Rightarrow>
                                       Inr (JObj (AList.update model_name entry1 al), out)
                                   | Inr False \<Rightarrow>
                                       (case py_append dupes (JStr model_file_relpath) of
                                          Inl e \<Rightarrow> Inl e
                                        | Inr dupes' \<Rightarrow>
                                            (case entry1 of
                                               JObj members \<Rightarrow>
                                                 Inr (JObj (AList.update model_name
                                                        (JObj (AList.update ''duplicates'' dupes' members)) al),
                                                      out @ [NewDuplicate model_name])
                                             | _ \<Rightarrow> Inl AttributeError))))
                           else Inr st)
                  | None \<Rightarrow>
                      Inr (JObj (AList.update model_name
                             (JObj [(''filename'', JStr model_file_relpath)]) al),
                           out @ [NewModel model_name]))
             | _ \<Rightarrow> Inl AttributeError)
       else Inr st))"

text \<open>
  \<^verbatim>\<open>os.walk(destination_root)\<close>. The loop body of \<^verbatim>\<open>updateMapFile\<close> does not touch the
  file system, so the walk is the list of its triples \<open>(root, dirs, files)\<close>, top down,
  in listing order. A path that is missing or not a directory yields nothing: the
  \<^verbatim>\<open>listdir\<close> error is ignored.
\<close>

fun is_Dir :: "string \<times> node \<Rightarrow> bool" where
  "is_Dir (name, Dir _) = True"
| "is_Dir (name, File _ _) = False"

fun walk_node :: "path \<Rightarrow> node \<Rightarrow> (path \<times> string list \<times> string list) list" where
  "walk_node topdir (File b t) = []"
| "walk_node topdir (Dir es) =
     (topdir, map fst (filter is_Dir es), map fst (filter (\<lambda>e. \<not> is_Dir e) es)) #
     concat (map (\<lambda>(name, child). walk_node (topdir @ [name]) child) (filter is_Dir es))"

definition walk :: "node \<Rightarrow> path \<Rightarrow> (path \<times> string list \<times> string list) list" where
  "walk fs topdir = (case lookup fs topdir of None \<Rightarrow> [] | Some n \<Rightarrow> walk_node topdir n)"

text \<open>
  The map file as the updater finds it on lines 41 and 42: missing (\<^verbatim>\<open>os.path.exists\<close>
  is false), unreadable (it exists but \<^verbatim>\<open>open(map_file_path, "r")\<close> raises
  \<^verbatim>\<open>IOError\<close>: it is a directory, or may not be read), not valid JSON (\<^verbatim>\<open>json.load\<close>
  raises \<^verbatim>\<open>ValueError\<close>), or holding a value.
\<close>

datatype map_file = Missing | Unreadable | Malformed | Holds json

text \<open>
  \<^verbatim>\<open>open(map_file_path, "w")\<close> on line 65 succeeds when the directory of the path
  exists and the path is not itself a directory; otherwise it raises \<^verbatim>\<open>IOError\<close>.
\<close>

definition can_write :: "node \<Rightarrow> path \<Rightarrow> bool" where
  "can_write fs p = (isdir fs (dirname p) \<and> \<not> isdir fs p)"

text \<open>
  What a run of the updater leaves: the value that \<^verbatim>\<open>json.dump\<close> wrote to the map file
  on line 65 (\<open>None\<close> when an exception came first, so nothing was written), the
  notices of a run whose walk ended normally, and the exception that ended the run, if
  any.
\<close>

record outcome =
  written :: "json option"
  printed :: "notice list"
  raised :: "error option"

definition index_walk ::
  "path \<Rightarrow> (path \<times> string list \<times> string list) list \<Rightarrow> json \<times> notice list
     \<Rightarrow> error + json \<times> notice list" where
  "index_walk map_file_path triples st =
     for_each (\<lambda>(root, dirs, files). for_each (index_model map_file_path root) files) triples st"

text \<open>Lines 39 to 42: the map starts empty unless the map file exists and is loaded.\<close>

definition load_map :: "map_file \<Rightarrow> error + json" where
  "load_map mf =
     (case mf of
        Missing \<Rightarrow> Inr (JObj [])
      | Unreadable \<Rightarrow> Inl IOError
      | Malformed \<Rightarrow> Inl ValueError
      | Holds v \<Rightarrow> Inr v)"

text \<open>
  Lines 39 to 69. The arguments of \<^verbatim>\<open>json.dump\<close> are evaluated before it is called, so
  a map file that cannot be opened for writing ends the run before anything is written.
\<close>

definition updateMapFile :: "map_file \<Rightarrow> path \<Rightarrow> path \<Rightarrow> node \<Rightarrow> outcome" where
  "updateMapFile mf map_file_path destination_root fs =
     (case load_map mf of
        Inl e \<Rightarrow> \<lparr>written = None, printed = [], raised = Some e\<rparr>
      | Inr component_map \<Rightarrow>
          (case index_walk map_file_path (walk fs destination_root) (component_map, []) of
             Inl e \<Rightarrow> \<lparr>written = None, printed = [], raised = Some e\<rparr>
           | Inr (component_map', out) \<Rightarrow>
               if \<not> can_write fs map_file_path
               then \<lparr>written = None, printed = out, raised = Some IOError\<rparr>
               else
                 (case py_len component_map' of
                    Inl e \<Rightarrow> \<lparr>written = Some component_map',
                              printed = out @ [WroteMapFile map_file_path], raised = Some e\<rparr>
                  | Inr n \<Rightarrow> \<lparr>written = Some component_map',
                              printed = out @ [WroteMapFile map_file_path, TotalComponents n],
                              raised = None\<rparr>)))"

declare walk_copy.simps [code]

subsection \<open>Example trees\<close>

text \<open>
  A source and a destination that hold different bytes under the same name, with the same
  size and the same modification time.
\<close>

definition stale_tree :: node where
  "stale_tree =
     Dir [(''src'', Dir [(''Widget.stl'', File ''solid A'' 1700000000)]),
          (''lib'', Dir [(''Widget.stl'', File ''solid B'' 1700000000)])]"

text \<open>
  A source tree with two model files of the same name, a file whose extension has another
  casing, and a file that is no model; the destination is empty.
\<close>

definition sample_tree :: node where
  "sample_tree =
     Dir [(''src'', Dir [(''foo'', Dir [(''Widget.stl'', File ''solid A'' 5)]),
                         (''bar'', Dir [(''Widget.STL'', File ''solid B'' 7)]),
                         (''Gear.Stl'', File ''solid C'' 9),
                         (''readme.txt'', File ''models'' 1)]),
          (''lib'', Dir [])]"

text \<open>\<open>sample_tree\<close> after \<^verbatim>\<open>src/foo/Widget.stl\<close> has been copied to its mirrored place.\<close>

definition widget_copied :: node where
  "widget_copied =
     Dir [(''src'', Dir [(''foo'', Dir [(''Widget.stl'', File ''solid A'' 5)]),
                         (''bar'', Dir [(''Widget.STL'', File ''solid B'' 7)]),
                         (''Gear.Stl'', File ''solid C'' 9),
                         (''readme.txt'', File ''models'' 1)]),
          (''lib'', Dir [(''foo'', Dir [(''Widget.stl'', File ''solid A'' 5)])])]"

subsection \<open>Reading a component map\<close>

text \<open>
  \<open>py_get v key\<close> is the value a dictionary holds under a key (\<^verbatim>\<open>v.get(key)\<close>), and
  \<open>duplicates e\<close> the \<^verbatim>\<open>duplicates\<close> list of a map entry, empty when the entry has none.
\<close>

definition py_get :: "json \<Rightarrow> string \<Rightarrow> json option" where
  "py_get v key = (case v of JObj members \<Rightarrow> map_of members key | _ \<Rightarrow> None)"

definition duplicates :: "json \<Rightarrow> json list" where
  "duplicates e = (case py_get e ''duplicates'' of Some (JArr ds) \<Rightarrow> ds | _ \<Rightarrow> [])"

text \<open>
  The map records the relative path \<open>rel\<close> for the model \<open>name\<close>: as the \<^verbatim>\<open>filename\<close> of
  the entry, or with \<^verbatim>\<open>rel in entry["duplicates"]\<close> true.
\<close>

definition indexed :: "json \<Rightarrow> string \<Rightarrow> string \<Rightarrow> bool" where
  "indexed component_map name rel =
     (case py_get component_map name of
        None \<Rightarrow> False
      | Some e \<Rightarrow>
          (case py_get e ''filename'' of
             None \<Rightarrow> False
           | Some recorded \<Rightarrow>
               recorded = JStr rel \<or>
               (case py_get e ''duplicates'' of
                  None \<Rightarrow> False
                | Some dupes \<Rightarrow> contains dupes rel = Inr True)))"

text \<open>
  The files the two nested loops of \<^verbatim>\<open>updateMapFile\<close> meet, in order, as pairs
  \<open>(root, filename)\<close>; the model files among them as pairs of model name and relative
  path; and the set of their model names.
\<close>

definition walk_files :: "(path \<times> string list \<times> string list) list \<Rightarrow> (path \<times> string) list" where
  "walk_files triples = concat (map (\<lambda>(root, dirs, files). map (Pair root) files) triples)"

definition model_files ::
  "path \<Rightarrow> (path \<times> string list \<times> string list) list \<Rightarrow> (string \<times> string) list" where
  "model_files map_file_path triples =
     map (\<lambda>(root, filename).
            (fst (splitext filename), relpath (root @ [filename]) (dirname map_file_path)))
       (filter (\<lambda>(root, filename). model_ext (snd (splitext filename))) (walk_files triples))"

definition model_names :: "(path \<times> string list \<times> string list) list \<Rightarrow> string set" where
  "model_names triples =
     set (map (\<lambda>(root, filename). fst (splitext filename))
            (filter (\<lambda>(root, filename). model_ext (snd (splitext filename))) (walk_files triples)))"

text \<open>
  The branch of \<open>index_model\<close> for a model file, as a function of the model name and the
  relative path (lines 54 to 62).
\<close>

definition record_model ::
  "string \<Rightarrow> string \<Rightarrow> json \<times> notice list \<Rightarrow> error + json \<times> notice list" where
  "record_model model_name model_file_relpath st =
     (case st of (component_map, out) \<Rightarrow>
        (case component_map of
           JObj al \<Rightarrow>
             (case map_of al model_name of
                Some entry \<Rightarrow>
                  (case getitem entry ''filename'' of
                     Inl e \<Rightarrow> Inl e
                   | Inr recorded \<Rightarrow>
                       if recorded \<noteq> JStr model_file_relpath then
                         (case setdefault entry ''duplicates'' (JArr []) of
                            Inl e \<Rightarrow> Inl e
                          | Inr (entry1, dupes) \<Rightarrow>
                              (case contains dupes model_file_relpath of
                                 Inl e \<Rightarrow> Inl e
                               | Inr True \<Rightarrow>
                                   Inr (JObj (AList.update model_name entry1 al), out)
                               | Inr False \<Rightarrow>
                                   (case py_append dupes (JStr model_file_relpath) of
                                      Inl e \<Rightarrow> Inl e
                                    | Inr dupes' \<Rightarrow>
                                        (case entry1 of
                                           JObj members \<Rightarrow>
                                             Inr (JObj (AList.update model_name
                                                    (JObj (AList.update ''duplicates'' dupes' members)) al),
                                                  out @ [NewDuplicate model_name])
                                         | _ \<Rightarrow> Inl AttributeError))))
                       else Inr st)
              | None \<Rightarrow>
                  Inr (JObj (AList.update model_name
                         (JObj [(''filename'', JStr model_file_relpath)]) al),
                       out @ [NewModel model_name]))
         | _ \<Rightarrow> Inl AttributeError))"

text \<open>
  What the updater keeps of an entry, and of a map: the \<^verbatim>\<open>filename\<close> stays, the
  \<^verbatim>\<open>duplicates\<close> list is extended at its end, and no key goes away.
\<close>

definition entry_kept :: "json \<Rightarrow> json \<Rightarrow> bool" where
  "entry_kept e e' =
     (py_get e' ''filename'' = py_get e ''filename'' \<and> prefix (duplicates e) (duplicates e'))"

definition map_kept :: "json \<Rightarrow> json \<Rightarrow> bool" where
  "map_kept cm cm' =
     (\<forall>k e. py_get cm k = Some e \<longrightarrow> (\<exists>e'. py_get cm' k = Some e' \<and> entry_kept e e'))"

text \<open>
  A map file that already has \<^verbatim>\<open>Widget\<close> at a path that is no longer in the tree, and
  the map the updater makes of it on \<open>sample_tree\<close> with the destination root \<^verbatim>\<open>/src\<close>
  and the map file \<^verbatim>\<open>/components.js\<close>.
\<close>

definition old_map :: json where
  "old_map = JObj [(''Widget'', JObj [(''filename'', JStr ''old/Widget.stl'')])]"

definition old_map_updated :: json where
  "old_map_updated =
     JObj [(''Widget'',
            JObj [(''filename'', JStr ''old/Widget.stl''),
                  (''duplicates'',
                   JArr [JStr ''src/foo/Widget.stl'', JStr ''src/bar/Widget.STL''])])]"

text \<open>
  The map the updater makes on \<open>sample_tree\<close> when there is no map file, and
  \<open>sample_tree\<close> after \<^verbatim>\<open>src/foo/Widget.stl\<close> has been deleted.
\<close>

definition fresh_map :: json where
  "fresh_map =
     JObj [(''Widget'',
            JObj [(''filename'', JStr ''src/foo/Widget.stl''),
                  (''duplicates'', JArr [JStr ''src/bar/Widget.STL''])])]"




text \<open>
  The shape the data model gives a component map, but for the \<^verbatim>\<open>filename\<close>: the map is
  an object, and every entry is an object whose \<^verbatim>\<open>duplicates\<close>, when it has one, is a
  list.
\<close>

definition well_typed_entry :: "json \<Rightarrow> bool" where
  "well_typed_entry e =
     (case e of
        JObj members \<Rightarrow>
          (case map_of members ''duplicates'' of
             None \<Rightarrow> True | Some (JArr ds) \<Rightarrow> True | Some _ \<Rightarrow> False)
      | _ \<Rightarrow> False)"

definition well_typed :: "json \<Rightarrow> bool" where
  "well_typed cm =
     ((case cm of JObj al \<Rightarrow> True | _ \<Rightarrow> False)
      \<and> (\<forall>k e. py_get cm k = Some e \<longrightarrow> well_typed_entry e))"

text \<open>
  A destination with two models, \<^verbatim>\<open>Bolt.stl\<close> at its top and \<^verbatim>\<open>Nut.stl\<close> in a
  directory below, so that every top-down walk meets \<^verbatim>\<open>Bolt.stl\<close> first; a map file
  whose \<^verbatim>\<open>Nut\<close> entry has no \<^verbatim>\<open>filename\<close>; and one whose \<^verbatim>\<open>Bolt\<close> entry has,
  besides, \<^verbatim>\<open>null\<close> for its \<^verbatim>\<open>duplicates\<close>.
\<close>

definition parts_tree :: node where
  "parts_tree =
     Dir [(''lib'', Dir [(''nuts'', Dir [(''Nut.stl'', File ''solid nut'' 4)]),
                         (''Bolt.stl'', File ''solid bolt'' 3)])]"

definition nut_map :: json where
  "nut_map =
     JObj [(''Bolt'', JObj [(''filename'', JStr ''lib/Bolt.stl'')]),
           (''Nut'', JObj [])]"

definition null_duplicates_map :: json where
  "null_duplicates_map =
     JObj [(''Bolt'', JObj [(''filename'', JStr ''old/Bolt.stl''), (''duplicates'', JNull)]),
           (''Nut'', JObj [])]"

subsection \<open>The model files of a tree\<close>



section \<open>Properties\<close>

subsection \<open>Files that are not model files\<close>

lemma copy_model_ignored:
  "\<not> model_ext (snd (splitext filename)) \<Longrightarrow>
     copy_model source_root destination_root root filename st = Inr st"
  by (auto simp: copy_model_def split: prod.splits)

lemma index_model_ignored:
  "\<not> model_ext (snd (splitext filename)) \<Longrightarrow>
     index_model map_file_path root filename st = Inr st"
  by (auto simp: index_model_def split: prod.splits)

lemma splitext_dotfile:
  "splitext ''.stl'' = (''.stl'', '''')" "splitext ''.STL'' = (''.STL'', '''')"
  by (simp_all add: splitext_def skip_dots.simps)

text \<open>
  C9. A file named exactly \<^verbatim>\<open>.stl\<close> or \<^verbatim>\<open>.STL\<close> is split into the whole name and an
  empty extension, so neither loop body takes it for a model file: the copier's body
  leaves the file system and the notices as they are, the updater's body leaves the map
  and the notices as they are.
\<close>

theorem dotfile_not_a_model:
  "splitext ''.stl'' = (''.stl'', '''') \<and> splitext ''.STL'' = (''.STL'', '''')
   \<and> copy_model source_root destination_root root ''.stl'' st = Inr st
   \<and> copy_model source_root destination_root root ''.STL'' st = Inr st
   \<and> index_model map_file_path root ''.stl'' st' = Inr st'
   \<and> index_model map_file_path root ''.STL'' st' = Inr st'"
  by (simp add: splitext_dotfile copy_model_ignored index_model_ignored model_ext_def)

subsection \<open>Runs of the copier on example trees\<close>

lemmas run_simps =
  copyUpdatedModels_def walk_copy.simps listdir_def isdir_def exists_def cmp_def
  copy_model_def splitext_def skip_dots.simps model_ext_def rel_list_def normpath_def
  copy2_def

text \<open>
  The shallow comparison: two regular files of the same size and modification time
  compare equal, whatever their bytes.
\<close>

lemma cmp_shallow:
  "lookup fs f1 = Some (File b1 t) \<Longrightarrow> lookup fs f2 = Some (File b2 t) \<Longrightarrow>
     length b1 = length b2 \<Longrightarrow> cmp fs f1 f2 = Inr True"
  by (simp add: cmp_def)

text \<open>
  C1. The copier is meant to copy a model file when the destination has no such file or
  one with different bytes. On \<open>stale_tree\<close> the destination file differs in its bytes
  from the source file, yet the copier copies nothing and prints no notice:
  \<^verbatim>\<open>filecmp.cmp\<close> is called in its shallow mode, which takes two regular files of the same
  size and modification time for equal without reading them.
\<close>

theorem copier_skips_changed_file:
  "lookup stale_tree [''src'', ''Widget.stl''] = Some (File ''solid A'' 1700000000)
   \<and> lookup stale_tree [''lib'', ''Widget.stl''] = Some (File ''solid B'' 1700000000)
   \<and> copyUpdatedModels [''src''] [''lib''] stale_tree = Some (Inr (stale_tree, []))"
  by (simp add: run_simps stale_tree_def)

lemmas index_simps =
  updateMapFile_def load_map_def can_write_def isdir_def index_walk_def walk_def
  index_model_def splitext_def skip_dots.simps model_ext_def relpath_def rel_list_def
  dirname_def getitem_def setdefault_def contains_def py_append_def py_len_def

lemma can_write_sample: "can_write sample_tree [''components.js'']"
  by (simp add: can_write_def isdir_def dirname_def sample_tree_def)

subsection \<open>A root that does not exist\<close>

lemma lookup_append:
  "lookup n (p @ q) = (case lookup n p of None \<Rightarrow> None | Some m \<Rightarrow> lookup m q)"
  by (induction p arbitrary: n) (auto split: node.splits option.splits)

lemma cannot_write_below_missing:
  assumes "\<not> exists fs destination_root" and "prefix destination_root (dirname map_file_path)"
  shows "\<not> can_write fs map_file_path"
proof -
  from assms(2) obtain q where "dirname map_file_path = destination_root @ q"
    by (auto simp: prefix_def)
  with assms(1) have "lookup fs (dirname map_file_path) = None"
    by (simp add: lookup_append exists_def)
  then show ?thesis by (simp add: can_write_def isdir_def)
qed

text \<open>
  C2 as stated: the copier fails when the source root does not exist, and the updater
  fails when the destination root does not exist. It does not hold: \<^verbatim>\<open>os.walk\<close> ignores
  the error of \<^verbatim>\<open>os.listdir\<close>, so the walk of a missing root is empty. On \<open>sample_tree\<close>
  the copier returns normally with the tree unchanged; and the updater, with its map file
  in a directory that exists, writes the (empty) map and prints its summary notice with no
  exception.
\<close>

theorem missing_roots_do_not_fail:
  "\<not> exists sample_tree [''missing'']
   \<and> copyUpdatedModels [''missing''] [''lib''] sample_tree = Some (Inr (sample_tree, []))
   \<and> updateMapFile Missing [''components.js''] [''missing''] sample_tree =
       \<lparr>written = Some (JObj []),
        printed = [WroteMapFile [''components.js''], TotalComponents 0],
        raised = None\<rparr>"
  by (simp add: run_simps index_simps sample_tree_def)

text \<open>
  C2, amended. A root that does not exist raises nothing by itself. When the source root
  does not exist the copier returns normally, having copied nothing and printed no notice.
  When the destination root does not exist the updater finds no model file, and its
  outcome is that of a run on an empty destination, whatever the map file is: the
  exception of the load when the map file cannot be read or parsed; \<^verbatim>\<open>IOError\<close>, with
  nothing written, when the map file cannot be opened for writing, which is always so
  when the map file lies under the missing root; otherwise the loaded map (the empty map
  when there is no map file) is written unchanged, followed by the summary notice when
  the loaded value has a length, and by the \<^verbatim>\<open>TypeError\<close> of \<^verbatim>\<open>len\<close> when it has none.
\<close>

theorem missing_root_is_empty_walk:
  "(\<not> exists fs source_root \<longrightarrow>
      copyUpdatedModels source_root destination_root fs = Some (Inr (fs, [])))
   \<and> (\<not> exists fs destination_root \<longrightarrow>
        updateMapFile mf map_file_path destination_root fs =
          (case load_map mf of
             Inl e \<Rightarrow> \<lparr>written = None, printed = [], raised = Some e\<rparr>
           | Inr component_map \<Rightarrow>
               if \<not> can_write fs map_file_path
               then \<lparr>written = None, printed = [], raised = Some IOError\<rparr>
               else
                 (case py_len component_map of
                    Inl e \<Rightarrow> \<lparr>written = Some component_map,
                              printed = [WroteMapFile map_file_path], raised = Some e\<rparr>
                  | Inr n \<Rightarrow> \<lparr>written = Some component_map,
                              printed = [WroteMapFile map_file_path, TotalComponents n],
                              raised = None\<rparr>))
        \<and> (prefix destination_root (dirname map_file_path) \<longrightarrow>
              written (updateMapFile mf map_file_path destination_root fs) = None
              \<and> raised (updateMapFile mf map_file_path destination_root fs) \<noteq> None)
        \<and> (can_write fs map_file_path \<longrightarrow>
              updateMapFile Missing map_file_path destination_root fs =
                \<lparr>written = Some (JObj []),
                 printed = [WroteMapFile map_file_path, TotalComponents 0],
                 raised = None\<rparr>
              \<and> updateMapFile (Holds (JObj al)) map_file_path destination_root fs =
                \<lparr>written = Some (JObj al),
                 printed = [WroteMapFile map_file_path,
                            TotalComponents (length (remdups (map fst al)))],
                 raised = None\<rparr>))"
proof (intro conjI impI)
  assume "\<not> exists fs source_root"
  then show "copyUpdatedModels source_root destination_root fs = Some (Inr (fs, []))"
    by (simp add: copyUpdatedModels_def walk_copy.simps listdir_def exists_def)
next
  assume missing: "\<not> exists fs destination_root"
  then have empty: "walk fs destination_root = []"
    by (simp add: walk_def exists_def)
  show outcome: "updateMapFile mf map_file_path destination_root fs =
          (case load_map mf of
             Inl e \<Rightarrow> \<lparr>written = None, printed = [], raised = Some e\<rparr>
           | Inr component_map \<Rightarrow>
               if \<not> can_write fs map_file_path
               then \<lparr>written = None, printed = [], raised = Some IOError\<rparr>
               else
                 (case py_len component_map of
                    Inl e \<Rightarrow> \<lparr>written = Some component_map,
                              printed = [WroteMapFile map_file_path], raised = Some e\<rparr>
                  | Inr n \<Rightarrow> \<lparr>written = Some component_map,
                              printed = [WroteMapFile map_file_path, TotalComponents n],
                              raised = None\<rparr>))"
    by (simp add: updateMapFile_def empty index_walk_def split: sum.splits)
  {
    assume "prefix destination_root (dirname map_file_path)"
    with missing have "\<not> can_write fs map_file_path"
      by (rule cannot_write_below_missing)
    with outcome
    show "written (updateMapFile mf map_file_path destination_root fs) = None"
      and "raised (updateMapFile mf map_file_path destination_root fs) \<noteq> None"
      by (simp_all split: sum.splits)
  }
  {
    assume "can_write fs map_file_path"
    then show "updateMapFile Missing map_file_path destination_root fs =
                \<lparr>written = Some (JObj []),
                 printed = [WroteMapFile map_file_path, TotalComponents 0],
                 raised = None\<rparr>"
      and "updateMapFile (Holds (JObj al)) map_file_path destination_root fs =
                \<lparr>written = Some (JObj al),
                 printed = [WroteMapFile map_file_path,
                            TotalComponents (length (remdups (map fst al)))],
                 raised = None\<rparr>"
      by (simp_all add: updateMapFile_def empty index_walk_def load_map_def py_len_def)
  }
qed

theorem missing_root_is_empty_walk_witness:
  "\<not> exists sample_tree [''missing'']
   \<and> copyUpdatedModels [''missing''] [''lib''] sample_tree = Some (Inr (sample_tree, []))
   \<and> can_write sample_tree [''components.js'']
   \<and> updateMapFile (Holds (JObj [(''Gear'', JObj [(''filename'', JStr ''Gear.stl'')])]))
         [''components.js''] [''missing''] sample_tree =
       \<lparr>written = Some (JObj [(''Gear'', JObj [(''filename'', JStr ''Gear.stl'')])]),
        printed = [WroteMapFile [''components.js''], TotalComponents 1],
        raised = None\<rparr>
   \<and> prefix [''missing''] (dirname [''missing'', ''components.js''])
   \<and> written (updateMapFile Missing [''missing'', ''components.js''] [''missing''] sample_tree)
       = None
   \<and> raised (updateMapFile Missing [''missing'', ''components.js''] [''missing''] sample_tree)
       = Some IOError
   \<and> updateMapFile Malformed [''components.js''] [''missing''] sample_tree =
       \<lparr>written = None, printed = [], raised = Some ValueError\<rparr>"
proof -
  let ?gear = "[(''Gear'', JObj [(''filename'', JStr ''Gear.stl'')])]"
  have missing: "\<not> exists sample_tree [''missing'']"
    by (simp add: exists_def sample_tree_def)
  have below: "prefix [''missing''] (dirname [''missing'', ''components.js''])"
    by (simp add: dirname_def)
  note T1 = missing_root_is_empty_walk
    [where fs = sample_tree and source_root = "[''missing'']"
       and destination_root = "[''lib'']"]
  note T2 = missing_root_is_empty_walk
    [where fs = sample_tree and destination_root = "[''missing'']"
       and map_file_path = "[''components.js'']" and al = ?gear and mf = Malformed]
  note T3 = missing_root_is_empty_walk
    [where fs = sample_tree and destination_root = "[''missing'']"
       and map_file_path = "[''missing'', ''components.js'']" and mf = Missing]
  from T1 [THEN conjunct1, THEN mp, OF missing]
  have copier: "copyUpdatedModels [''missing''] [''lib''] sample_tree
      = Some (Inr (sample_tree, []))" .
  from T2 [THEN conjunct2, THEN mp, OF missing]
  have malformed: "updateMapFile Malformed [''components.js''] [''missing''] sample_tree =
       \<lparr>written = None, printed = [], raised = Some ValueError\<rparr>"
    and gear: "updateMapFile (Holds (JObj ?gear)) [''components.js''] [''missing''] sample_tree =
       \<lparr>written = Some (JObj ?gear),
        printed = [WroteMapFile [''components.js''],
                   TotalComponents (length (remdups (map fst ?gear)))],
        raised = None\<rparr>"
    using can_write_sample by (simp_all add: load_map_def)
  from gear have gear': "updateMapFile (Holds (JObj ?gear)) [''components.js''] [''missing'']
      sample_tree =
       \<lparr>written = Some (JObj ?gear),
        printed = [WroteMapFile [''components.js''], TotalComponents 1],
        raised = None\<rparr>"
    by simp
  from T3 [THEN conjunct2, THEN mp, OF missing] below
  have w: "written (updateMapFile Missing [''missing'', ''components.js''] [''missing'']
      sample_tree) = None"
    and nonempty: "raised (updateMapFile Missing [''missing'', ''components.js''] [''missing'']
      sample_tree) \<noteq> None"
    and out: "updateMapFile Missing [''missing'', ''components.js''] [''missing''] sample_tree =
          (case load_map Missing of
             Inl e \<Rightarrow> \<lparr>written = None, printed = [], raised = Some e\<rparr>
           | Inr component_map \<Rightarrow>
               if \<not> can_write sample_tree [''missing'', ''components.js'']
               then \<lparr>written = None, printed = [], raised = Some IOError\<rparr>
               else
                 (case py_len component_map of
                    Inl e \<Rightarrow> \<lparr>written = Some component_map,
                              printed = [WroteMapFile [''missing'', ''components.js'']],
                              raised = Some e\<rparr>
                  | Inr n \<Rightarrow> \<lparr>written = Some component_map,
                              printed = [WroteMapFile [''missing'', ''components.js''],
                                         TotalComponents n],
                              raised = None\<rparr>))"
    by blast+
  have "\<not> can_write sample_tree [''missing'', ''components.js'']"
    using missing below by (rule cannot_write_below_missing)
  with out have r: "raised (updateMapFile Missing [''missing'', ''components.js'']
      [''missing''] sample_tree) = Some IOError"
    by (simp add: load_map_def)
  from missing copier can_write_sample gear' below w r malformed
  show ?thesis by (intro conjI)
qed

subsection \<open>The extension decides\<close>

lemma lookup_put:
  "put n p new = Inr n' \<Longrightarrow> prefix q p \<Longrightarrow> lookup n' q \<noteq> None"
proof (induction p arbitrary: n n' q)
  case Nil
  then show ?case by simp
next
  case (Cons c cs)
  show ?case
  proof (cases q)
    case Nil
    then show ?thesis by simp
  next
    case (Cons c' q')
    with Cons.prems have q: "q = c # q'" and pre: "prefix q' cs" by auto
    from Cons.prems(1) obtain es where n: "n = Dir es"
      by (cases n) auto
    show ?thesis
    proof (cases "map_of es c")
      case None
      with Cons.prems(1) n have cs: "cs = []" and n': "n' = Dir (es @ [(c, new)])"
        by (auto split: if_splits)
      with pre q None show ?thesis by (simp add: map_add_def)
    next
      case (Some m)
      with Cons.prems(1) n obtain m' where m': "put m cs new = Inr m'"
        and n': "n' = Dir (AList.update c m' es)"
        by (auto split: sum.splits)
      from Cons.IH [OF m' pre] n' q show ?thesis
        by (simp add: update_conv')
    qed
  qed
qed

lemma copy2_exists:
  assumes "copy2 fs src dst = Inr fs'"
  shows "exists fs' dst"
proof -
  from assms obtain dst' new where "put fs dst' new = Inr fs'" and "prefix dst dst'"
    unfolding copy2_def Let_def
    by (auto split: if_splits option.splits node.splits)
  then show ?thesis
    unfolding exists_def by (rule lookup_put)
qed

text \<open>
  C7. A file is a model file for both loops exactly when \<^verbatim>\<open>os.path.splitext\<close> gives it
  the extension \<^verbatim>\<open>.stl\<close> or \<^verbatim>\<open>.STL\<close>. With any other extension both loop bodies leave
  their state as it is. Where the copier's body returns normally and the mirrored
  destination path did not exist before, the path exists afterwards exactly when the
  extension is one of the two. Where the map has no key for the file's name, the updater's
  body returns normally, and the name is a key afterwards exactly when the extension is
  one of the two.
\<close>

theorem model_file_iff_extension:
  "(snd (splitext filename) \<notin> {''.stl'', ''.STL''} \<longrightarrow>
      copy_model source_root destination_root root filename st = Inr st
      \<and> index_model map_file_path root filename st' = Inr st')
   \<and> (copy_model source_root destination_root root filename (fs, out) = Inr (fs', out')
        \<and> \<not> exists fs (normpath (destination_root @ rel_list root source_root) @ [filename])
      \<longrightarrow> (exists fs' (normpath (destination_root @ rel_list root source_root) @ [filename])
            \<longleftrightarrow> snd (splitext filename) \<in> {''.stl'', ''.STL''}))
   \<and> (map_of al (fst (splitext filename)) = None \<longrightarrow>
        (\<exists>al' out'. index_model map_file_path root filename (JObj al, out) = Inr (JObj al', out')
           \<and> (map_of al' (fst (splitext filename)) \<noteq> None
                \<longleftrightarrow> snd (splitext filename) \<in> {''.stl'', ''.STL''})))"
proof (intro conjI impI)
  assume "snd (splitext filename) \<notin> {''.stl'', ''.STL''}"
  then have "\<not> model_ext (snd (splitext filename))" by (simp add: model_ext_def)
  then show "copy_model source_root destination_root root filename st = Inr st"
    and "index_model map_file_path root filename st' = Inr st'"
    by (simp_all add: copy_model_ignored index_model_ignored)
next
  let ?dst = "normpath (destination_root @ rel_list root source_root) @ [filename]"
  assume a: "copy_model source_root destination_root root filename (fs, out) = Inr (fs', out')
     \<and> \<not> exists fs ?dst"
  show "exists fs' ?dst \<longleftrightarrow> snd (splitext filename) \<in> {''.stl'', ''.STL''}"
  proof (cases "model_ext (snd (splitext filename))")
    case False
    with a copy_model_ignored [OF False, of source_root destination_root root "(fs, out)"]
    show ?thesis by (auto simp: model_ext_def)
  next
    case True
    with a obtain fs1 where "copy2 fs1 (root @ [filename]) ?dst = Inr fs'"
      by (auto simp: copy_model_def Let_def split: prod.splits sum.splits if_splits bool.splits)
    then have "exists fs' ?dst" by (rule copy2_exists)
    with True show ?thesis by (simp add: model_ext_def)
  qed
next
  assume "map_of al (fst (splitext filename)) = None"
  then show "\<exists>al' out'. index_model map_file_path root filename (JObj al, out) = Inr (JObj al', out')
           \<and> (map_of al' (fst (splitext filename)) \<noteq> None
                \<longleftrightarrow> snd (splitext filename) \<in> {''.stl'', ''.STL''})"
    by (auto simp: index_model_def model_ext_def Let_def update_conv' split: prod.splits)
qed

theorem model_file_iff_extension_witness:
  "snd (splitext ''Gear.Stl'') \<notin> {''.stl'', ''.STL''}
   \<and> copy_model [''src''] [''lib''] [''src''] ''Gear.Stl'' (sample_tree, []) = Inr (sample_tree, [])
   \<and> index_model [''components.js''] [''src''] ''Gear.Stl'' (JObj [], []) = Inr (JObj [], [])
   \<and> copy_model [''src''] [''lib''] [''src'', ''foo''] ''Widget.stl'' (sample_tree, []) =
       Inr (widget_copied, [Copying ''Widget'' [''src'', ''foo'', ''Widget.stl'']])
   \<and> \<not> exists sample_tree [''lib'', ''foo'', ''Widget.stl'']
   \<and> exists widget_copied [''lib'', ''foo'', ''Widget.stl'']
   \<and> snd (splitext ''Widget.stl'') \<in> {''.stl'', ''.STL''}
   \<and> map_of ([] :: (string \<times> json) list) (fst (splitext ''Widget.stl'')) = None"
proof -
  have ext: "snd (splitext ''Gear.Stl'') \<notin> {''.stl'', ''.STL''}"
    by (simp add: splitext_def skip_dots.simps)
  have copied: "copy_model [''src''] [''lib''] [''src'', ''foo''] ''Widget.stl'' (sample_tree, []) =
       Inr (widget_copied, [Copying ''Widget'' [''src'', ''foo'', ''Widget.stl'']])"
    by (simp add: run_simps sample_tree_def widget_copied_def)
  have absent: "\<not> exists sample_tree [''lib'', ''foo'', ''Widget.stl'']"
    by (simp add: exists_def sample_tree_def)
  have dst: "normpath ([''lib''] @ rel_list [''src'', ''foo''] [''src'']) @ [''Widget.stl'']
       = [''lib'', ''foo'', ''Widget.stl'']"
    by (simp add: normpath_def rel_list_def)
  have stl: "snd (splitext ''Widget.stl'') \<in> {''.stl'', ''.STL''}"
    by (simp add: splitext_def skip_dots.simps)
  from ext copied absent dst stl
    model_file_iff_extension
      [where filename = "''Gear.Stl''" and source_root = "[''src'']"
         and destination_root = "[''lib'']" and root = "[''src'']"
         and st = "(sample_tree, [])" and st' = "(JObj [], [])"
         and map_file_path = "[''components.js'']"]
    model_file_iff_extension
      [where filename = "''Widget.stl''" and source_root = "[''src'']"
         and destination_root = "[''lib'']" and root = "[''src'', ''foo'']"
         and fs = sample_tree and out = "[]" and fs' = widget_copied
         and out' = "[Copying ''Widget'' [''src'', ''foo'', ''Widget.stl'']]"
         and al = "[]"]
  show ?thesis by simp
qed

subsection \<open>Loops\<close>

lemma for_each_append:
  "for_each body (xs @ ys) s =
     (case for_each body xs s of Inl e \<Rightarrow> Inl e | Inr s' \<Rightarrow> for_each body ys s')"
  by (induction xs arbitrary: s) (auto split: sum.splits)

lemma for_each_map: "for_each body (map g xs) s = for_each (\<lambda>x. body (g x)) xs s"
  by (induction xs arbitrary: s) (auto split: sum.splits)

lemma for_each_filter:
  "(\<And>x s. x \<in> set xs \<Longrightarrow> \<not> P x \<Longrightarrow> body x s = Inr s) \<Longrightarrow>
     for_each body (filter P xs) s = for_each body xs s"
  by (induction xs arbitrary: s) (auto split: sum.splits)

lemma for_each_cong:
  "(\<And>x s. x \<in> set xs \<Longrightarrow> body x s = body' x s) \<Longrightarrow>
     for_each body xs s = for_each body' xs s"
  by (induction xs arbitrary: s) (auto split: sum.splits)

lemma for_each_concat:
  "for_each (\<lambda>x. for_each (body x) (g x)) xs s =
     for_each (\<lambda>(x, y). body x y) (concat (map (\<lambda>x. map (Pair x) (g x)) xs)) s"
  by (induction xs arbitrary: s) (auto simp: for_each_append for_each_map split: sum.splits)

lemma for_each_rel:
  assumes step: "\<And>x s s'. x \<in> set xs \<Longrightarrow> body x s = Inr s' \<Longrightarrow> R s s'"
    and refl: "\<And>s. R s s"
    and trans: "\<And>a b c. R a b \<Longrightarrow> R b c \<Longrightarrow> R a c"
    and run: "for_each body xs s = Inr s'"
  shows "R s s'"
  using step run
proof (induction xs arbitrary: s)
  case Nil
  then show ?case by (simp add: refl)
next
  case (Cons x xs)
  from Cons.prems(2) obtain s1 where s1: "body x s = Inr s1" and rest: "for_each body xs s1 = Inr s'"
    by (auto split: sum.splits)
  have "R s s1" by (rule Cons.prems(1) [of x]) (simp_all add: s1)
  moreover have "R s1 s'" by (rule Cons.IH [OF _ rest]) (rule Cons.prems(1), simp_all)
  ultimately show ?case by (rule trans)
qed

lemma for_each_inv:
  assumes step: "\<And>x s s'. x \<in> set xs \<Longrightarrow> P s \<Longrightarrow> body x s = Inr s' \<Longrightarrow> P s'"
    and init: "P s"
    and run: "for_each body xs s = Inr s'"
  shows "P s'"
  using step init run
proof (induction xs arbitrary: s)
  case Nil
  then show ?case by simp
next
  case (Cons x xs)
  from Cons.prems(3) obtain s1 where s1: "body x s = Inr s1" and rest: "for_each body xs s1 = Inr s'"
    by (auto split: sum.splits)
  have "P s1" by (rule Cons.prems(1) [of x s]) (simp_all add: s1 Cons.prems(2))
  show ?case by (rule Cons.IH [OF _ \<open>P s1\<close> rest]) (rule Cons.prems(1), simp_all)
qed

subsection \<open>The walk of the updater as one loop over the model files\<close>

lemma index_model_record:
  "index_model map_file_path root filename st =
     (if model_ext (snd (splitext filename))
      then record_model (fst (splitext filename))
             (relpath (root @ [filename]) (dirname map_file_path)) st
      else Inr st)"
  by (cases st; cases "splitext filename")
     (simp add: index_model_def record_model_def Let_def)

lemma index_walk_files:
  "index_walk map_file_path triples st =
     for_each (\<lambda>(root, filename). index_model map_file_path root filename) (walk_files triples) st"
  unfolding index_walk_def walk_files_def
  by (induction triples arbitrary: st)
     (auto simp: for_each_append for_each_map split: sum.splits)

lemma index_walk_model_files:
  "index_walk map_file_path triples st =
     for_each (\<lambda>(name, rel). record_model name rel) (model_files map_file_path triples) st"
proof -
  have "for_each (\<lambda>(root, filename). index_model map_file_path root filename)
          (filter (\<lambda>(root, filename). model_ext (snd (splitext filename))) (walk_files triples)) st
        = for_each (\<lambda>(root, filename). index_model map_file_path root filename) (walk_files triples) st"
    by (rule for_each_filter) (auto simp: index_model_ignored)
  moreover have "for_each (\<lambda>(name, rel). record_model name rel) (model_files map_file_path triples) st
        = for_each (\<lambda>(root, filename). index_model map_file_path root filename)
          (filter (\<lambda>(root, filename). model_ext (snd (splitext filename))) (walk_files triples)) st"
    unfolding model_files_def for_each_map
    by (rule for_each_cong) (auto simp: index_model_record)
  ultimately show ?thesis by (simp add: index_walk_files)
qed

subsection \<open>One step of the updater\<close>

lemma record_model_cases:
  assumes "record_model name rel (cm, out) = Inr (cm', out')"
  obtains
    (new) al where "cm = JObj al" "map_of al name = None"
      "cm' = JObj (AList.update name (JObj [(''filename'', JStr rel)]) al)"
      "out' = out @ [NewModel name]"
  | (same) "cm' = cm" "out' = out" "indexed cm name rel"
  | (dup) al members recorded ds where "cm = JObj al" "map_of al name = Some (JObj members)"
      "map_of members ''filename'' = Some recorded" "recorded \<noteq> JStr rel"
      "duplicates (JObj members) = ds"
      "map_of members ''duplicates'' = None \<or> map_of members ''duplicates'' = Some (JArr ds)"
      "JStr rel \<notin> set ds"
      "cm' = JObj (AList.update name
                (JObj (AList.update ''duplicates'' (JArr (ds @ [JStr rel])) members)) al)"
      "out' = out @ [NewDuplicate name]"
proof -
  from assms obtain al where cm: "cm = JObj al"
    by (cases cm) (auto simp: record_model_def)
  show thesis
  proof (cases "map_of al name")
    case None
    with assms cm show thesis
      by (intro new [of al]) (auto simp: record_model_def)
  next
    case (Some entry)
    with assms cm obtain members recorded where entry: "entry = JObj members"
      and rec: "map_of members ''filename'' = Some recorded"
      by (cases entry) (auto simp: record_model_def getitem_def split: option.splits)
    show thesis
    proof (cases "recorded = JStr rel")
      case True
      with assms cm Some entry rec show thesis
        by (intro same) (auto simp: record_model_def getitem_def indexed_def py_get_def)
    next
      case False
      note neq = this
      show thesis
      proof (cases "map_of members ''duplicates''")
        case None
        with assms cm Some entry rec neq show thesis
          by (intro dup [of al members recorded "[]"])
             (auto simp: record_model_def getitem_def setdefault_def contains_def py_append_def
                duplicates_def py_get_def)
      next
        case (Some dupes)
        note dupes = this
        show thesis
        proof (cases "contains dupes rel = Inr True")
          case True
          with assms cm \<open>map_of al name = Some entry\<close> entry rec neq dupes show thesis
            by (intro same)
               (auto simp: record_model_def getitem_def setdefault_def indexed_def py_get_def
                  update_triv)
        next
          case False
          with assms cm \<open>map_of al name = Some entry\<close> entry rec neq dupes
          obtain ds where "dupes = JArr ds" "JStr rel \<notin> set ds"
            by (cases dupes)
               (auto simp: record_model_def getitem_def setdefault_def contains_def py_append_def
                  split: sum.splits bool.splits if_splits)
          with assms cm \<open>map_of al name = Some entry\<close> entry rec neq dupes show thesis
            by (intro dup [of al members recorded ds])
               (auto simp: record_model_def getitem_def setdefault_def contains_def py_append_def
                  duplicates_def py_get_def)
        qed
      qed
    qed
  qed
qed


lemma py_get_update:
  "py_get (JObj (AList.update k v al)) k' = (if k' = k then Some v else py_get (JObj al) k')"
  by (simp add: py_get_def update_conv')

lemma duplicates_update:
  "duplicates (JObj (AList.update ''duplicates'' (JArr ds) members)) = ds"
  by (simp add: duplicates_def py_get_def update_conv')

lemma record_model_other:
  assumes "record_model name rel (cm, out) = Inr (cm', out')" and "k \<noteq> name"
  shows "py_get cm' k = py_get cm k"
  using assms by (cases rule: record_model_cases) (simp_all add: py_get_update)

lemma record_model_new:
  assumes "record_model name rel (cm, out) = Inr (cm', out')" and "py_get cm name = None"
  shows "py_get cm' name = Some (JObj [(''filename'', JStr rel)])"
  using assms
  by (cases rule: record_model_cases) (simp_all add: py_get_def update_conv' indexed_def)

lemma record_model_old:
  assumes "record_model name rel (cm, out) = Inr (cm', out')" and "py_get cm name = Some e"
  shows "\<exists>e'. py_get cm' name = Some e'
           \<and> py_get e' ''filename'' = py_get e ''filename''
           \<and> (duplicates e' = duplicates e
                \<or> duplicates e' = duplicates e @ [JStr rel] \<and> JStr rel \<notin> set (duplicates e))"
  using assms
proof (cases rule: record_model_cases)
  case (new al)
  with assms(2) show ?thesis by (simp add: py_get_def)
next
  case same
  with assms(2) show ?thesis by simp
next
  case (dup al members recorded ds)
  with assms(2) have e: "e = JObj members" by (simp add: py_get_def)
  from dup have "py_get cm' name =
      Some (JObj (AList.update ''duplicates'' (JArr (ds @ [JStr rel])) members))"
    by (simp add: py_get_update)
  moreover have "py_get (JObj (AList.update ''duplicates'' (JArr (ds @ [JStr rel])) members))
      ''filename'' = py_get e ''filename''"
    by (simp add: e py_get_update)
  ultimately show ?thesis using dup e by (simp add: duplicates_update)
qed

lemma record_model_indexes:
  assumes "record_model name rel (cm, out) = Inr (cm', out')"
  shows "indexed cm' name rel"
  using assms
proof (cases rule: record_model_cases)
  case (new al)
  then show ?thesis by (simp add: indexed_def py_get_def update_conv')
next
  case same
  then show ?thesis by simp
next
  case (dup al members recorded ds)
  then show ?thesis
    by (simp add: indexed_def py_get_update)
       (simp add: py_get_def update_conv' contains_def)
qed

lemma indexed_kept:
  assumes "record_model name' rel' (cm, out) = Inr (cm', out')" and "indexed cm name rel"
  shows "indexed cm' name rel"
proof (cases "name' = name")
  case False
  with assms(1) have "py_get cm' name = py_get cm name"
    by (simp add: record_model_other)
  with assms(2) show ?thesis by (simp add: indexed_def)
next
  case True
  from assms(1) show ?thesis
  proof (cases rule: record_model_cases)
    case (new al)
    with assms(2) True show ?thesis by (simp add: indexed_def py_get_def)
  next
    case same
    with assms(2) show ?thesis by simp
  next
    case (dup al members recorded ds)
    with assms(2) True
    have old: "recorded = JStr rel \<or> JStr rel \<in> set ds"
      by (auto simp: indexed_def py_get_def contains_def split: option.splits)
    from dup True have "py_get cm' name =
        Some (JObj (AList.update ''duplicates'' (JArr (ds @ [JStr rel'])) members))"
      by (simp add: py_get_update)
    with dup old show ?thesis
      by (auto simp: indexed_def py_get_def update_conv' contains_def)
  qed
qed

lemma for_each_indexed:
  assumes "for_each (\<lambda>(name, rel). record_model name rel) xs (cm, out) = Inr (cm', out')"
  shows "\<forall>(name, rel) \<in> set xs. indexed cm' name rel"
  using assms
proof (induction xs arbitrary: cm out)
  case Nil
  then show ?case by simp
next
  case (Cons x xs)
  obtain name rel where x: "x = (name, rel)" by (cases x)
  with Cons.prems obtain cm1 out1 where
    step: "record_model name rel (cm, out) = Inr (cm1, out1)" and
    rest: "for_each (\<lambda>(name, rel). record_model name rel) xs (cm1, out1) = Inr (cm', out')"
    by (auto split: sum.splits)
  from step have "indexed cm1 name rel" by (rule record_model_indexes)
  moreover have "indexed cm1 name rel \<Longrightarrow> indexed cm' name rel"
    using rest
  proof (induction xs arbitrary: cm1 out1)
    case Nil
    then show ?case by simp
  next
    case (Cons y ys)
    obtain n r where y: "y = (n, r)" by (cases y)
    with Cons.prems(2) obtain cm2 out2 where
      s: "record_model n r (cm1, out1) = Inr (cm2, out2)" and
      r: "for_each (\<lambda>(name, rel). record_model name rel) ys (cm2, out2) = Inr (cm', out')"
      by (auto split: sum.splits)
    from s Cons.prems(1) have "indexed cm2 name rel" by (rule indexed_kept)
    then show ?case using r by (rule Cons.IH)
  qed
  ultimately have "indexed cm' name rel" by simp
  with Cons.IH [OF rest] x show ?case by simp
qed


subsection \<open>A run of the updater\<close>

lemma written_run:
  "written (updateMapFile mf map_file_path destination_root fs) = Some cm' \<longleftrightarrow>
     (\<exists>cm out'. load_map mf = Inr cm \<and> can_write fs map_file_path
        \<and> for_each (\<lambda>(name, rel). record_model name rel)
              (model_files map_file_path (walk fs destination_root)) (cm, []) = Inr (cm', out'))"
  by (auto simp: updateMapFile_def index_walk_model_files
        split: sum.splits prod.splits if_splits)

lemma model_names_files: "model_names triples = fst ` set (model_files map_file_path triples)"
  by (simp add: model_names_def model_files_def image_image case_prod_unfold)

lemma entry_kept_refl: "entry_kept e e"
  by (simp add: entry_kept_def)

lemma entry_kept_trans: "entry_kept a b \<Longrightarrow> entry_kept b c \<Longrightarrow> entry_kept a c"
  by (auto simp: entry_kept_def)

lemma map_kept_refl: "map_kept cm cm"
  by (auto simp: map_kept_def entry_kept_refl)

lemma map_kept_trans: "map_kept a b \<Longrightarrow> map_kept b c \<Longrightarrow> map_kept a c"
proof -
  assume ab: "map_kept a b" and bc: "map_kept b c"
  show "map_kept a c"
    unfolding map_kept_def
  proof (intro allI impI)
    fix k e
    assume "py_get a k = Some e"
    with ab obtain e1 where e1: "py_get b k = Some e1" "entry_kept e e1"
      by (auto simp: map_kept_def)
    with bc obtain e2 where "py_get c k = Some e2" "entry_kept e1 e2"
      by (auto simp: map_kept_def)
    with e1 show "\<exists>e'. py_get c k = Some e' \<and> entry_kept e e'"
      by (auto intro: entry_kept_trans)
  qed
qed

lemma record_model_kept:
  assumes "record_model name rel (cm, out) = Inr (cm', out')"
  shows "map_kept cm cm'"
  unfolding map_kept_def
proof (intro allI impI)
  fix k e
  assume e: "py_get cm k = Some e"
  show "\<exists>e'. py_get cm' k = Some e' \<and> entry_kept e e'"
  proof (cases "k = name")
    case False
    with assms e show ?thesis
      by (simp add: record_model_other entry_kept_refl)
  next
    case True
    with record_model_old [OF assms] e show ?thesis
      by (auto simp: entry_kept_def)
  qed
qed

lemma for_each_kept:
  assumes "for_each (\<lambda>(name, rel). record_model name rel) xs (cm, out) = Inr (cm', out')"
  shows "map_kept cm cm'"
proof -
  have "map_kept (fst (cm, out)) (fst (cm', out'))"
  proof (rule for_each_rel [where R = "\<lambda>s s'. map_kept (fst s) (fst s')", OF _ _ _ assms])
    fix x s s'
    assume "(case x of (name, rel) \<Rightarrow> record_model name rel) s = Inr s'"
    moreover obtain name rel where "x = (name, rel)" by (cases x)
    moreover obtain c1 o1 c2 o2 where "s = (c1, o1)" "s' = (c2, o2)"
      by (cases s; cases s') auto
    ultimately show "map_kept (fst s) (fst s')"
      using record_model_kept [of name rel c1 o1 c2 o2] by simp
  next
    fix s :: "json \<times> notice list"
    show "map_kept (fst s) (fst s)" by (rule map_kept_refl)
  next
    fix a b c :: "json \<times> notice list"
    assume "map_kept (fst a) (fst b)" and "map_kept (fst b) (fst c)"
    then show "map_kept (fst a) (fst c)" by (rule map_kept_trans)
  qed
  then show ?thesis by simp
qed

lemma for_each_untouched:
  assumes run: "for_each (\<lambda>(name, rel). record_model name rel) xs (cm, out) = Inr (cm', out')"
    and k: "k \<notin> fst ` set xs"
  shows "py_get cm' k = py_get cm k"
proof -
  have "py_get (fst (cm', out')) k = py_get (fst (cm, out)) k"
  proof (rule for_each_rel [where R = "\<lambda>s s'. py_get (fst s') k = py_get (fst s) k", OF _ _ _ run])
    fix x s s'
    assume x: "x \<in> set xs" and step: "(case x of (name, rel) \<Rightarrow> record_model name rel) s = Inr s'"
    obtain name rel where xe: "x = (name, rel)" by (cases x)
    obtain c1 o1 c2 o2 where se: "s = (c1, o1)" "s' = (c2, o2)" by (cases s; cases s') auto
    from x xe k have "k \<noteq> name" by force
    with step xe se show "py_get (fst s') k = py_get (fst s) k"
      by (simp add: record_model_other)
  qed simp_all
  then show ?thesis by simp
qed

text \<open>
  C3. The updater never changes the \<^verbatim>\<open>filename\<close> of a key of the component map.
  Whatever state the walk is in, every key of the map then has, after the rest of the walk,
  the same \<^verbatim>\<open>filename\<close>, and a \<^verbatim>\<open>duplicates\<close> list that extends the one it had; so it
  is for the keys of the loaded map after a whole run. A key that the walk inserts gets as
  \<^verbatim>\<open>filename\<close> the path of the first model file of that name in walk order, and keeps it
  to the end of the run.
\<close>

theorem filename_never_changes:
  "(index_walk map_file_path triples (cm, out) = Inr (cm', out') \<and> py_get cm k = Some e
      \<longrightarrow> (\<exists>e'. py_get cm' k = Some e' \<and> py_get e' ''filename'' = py_get e ''filename''
                 \<and> prefix (duplicates e) (duplicates e')))
   \<and> (written (updateMapFile (Holds cm) map_file_path destination_root fs) = Some cm'
        \<and> py_get cm k = Some e
      \<longrightarrow> (\<exists>e'. py_get cm' k = Some e' \<and> py_get e' ''filename'' = py_get e ''filename''
                 \<and> prefix (duplicates e) (duplicates e')))
   \<and> (index_walk map_file_path triples (cm, out) = Inr (cm', out') \<and> py_get cm k = None
        \<and> model_files map_file_path triples = before @ (k, rel) # later
        \<and> k \<notin> fst ` set before
      \<longrightarrow> (\<exists>e'. py_get cm' k = Some e' \<and> py_get e' ''filename'' = Some (JStr rel)))"
proof (intro conjI impI)
  assume "index_walk map_file_path triples (cm, out) = Inr (cm', out') \<and> py_get cm k = Some e"
  then have "map_kept cm cm'" and "py_get cm k = Some e"
    by (auto simp: index_walk_model_files dest: for_each_kept)
  then show "\<exists>e'. py_get cm' k = Some e' \<and> py_get e' ''filename'' = py_get e ''filename''
                 \<and> prefix (duplicates e) (duplicates e')"
    by (simp add: map_kept_def entry_kept_def)
next
  assume "written (updateMapFile (Holds cm) map_file_path destination_root fs) = Some cm'
        \<and> py_get cm k = Some e"
  then have "map_kept cm cm'" and "py_get cm k = Some e"
    by (auto simp: written_run load_map_def dest: for_each_kept)
  then show "\<exists>e'. py_get cm' k = Some e' \<and> py_get e' ''filename'' = py_get e ''filename''
                 \<and> prefix (duplicates e) (duplicates e')"
    by (simp add: map_kept_def entry_kept_def)
next
  assume a: "index_walk map_file_path triples (cm, out) = Inr (cm', out') \<and> py_get cm k = None
        \<and> model_files map_file_path triples = before @ (k, rel) # later
        \<and> k \<notin> fst ` set before"
  then obtain s1 s2 where
    r1: "for_each (\<lambda>(name, rel). record_model name rel) before (cm, out) = Inr s1" and
    r2: "record_model k rel s1 = Inr s2" and
    r3: "for_each (\<lambda>(name, rel). record_model name rel) later s2 = Inr (cm', out')"
    by (auto simp: index_walk_model_files for_each_append split: sum.splits)
  obtain cm1 out1 cm2 out2 where s: "s1 = (cm1, out1)" "s2 = (cm2, out2)"
    by (cases s1; cases s2) auto
  from r1 a s have "py_get cm1 k = None"
    by (simp add: for_each_untouched)
  with r2 s have "py_get cm2 k = Some (JObj [(''filename'', JStr rel)])"
    by (simp add: record_model_new)
  moreover from r3 s have "map_kept cm2 cm'" by (auto dest: for_each_kept)
  ultimately obtain e' where "py_get cm' k = Some e'"
    and "entry_kept (JObj [(''filename'', JStr rel)]) e'"
    by (auto simp: map_kept_def)
  then show "\<exists>e'. py_get cm' k = Some e' \<and> py_get e' ''filename'' = Some (JStr rel)"
    by (simp add: entry_kept_def) (simp add: py_get_def)
qed

lemma walk_sample:
  "walk sample_tree [''src''] =
     [([''src''], [''foo'', ''bar''], [''Gear.Stl'', ''readme.txt'']),
      ([''src'', ''foo''], [], [''Widget.stl'']),
      ([''src'', ''bar''], [], [''Widget.STL''])]"
  by (simp add: walk_def sample_tree_def)

lemma model_files_sample:
  "model_files [''components.js''] (walk sample_tree [''src'']) =
     [(''Widget'', ''src/foo/Widget.stl''), (''Widget'', ''src/bar/Widget.STL'')]"
  by (simp add: walk_sample model_files_def walk_files_def splitext_def skip_dots.simps
        model_ext_def relpath_def rel_list_def dirname_def)

lemma index_walk_old_map:
  "index_walk [''components.js''] (walk sample_tree [''src'']) (old_map, []) =
     Inr (old_map_updated, [NewDuplicate ''Widget'', NewDuplicate ''Widget''])"
  by (simp add: index_walk_model_files model_files_sample record_model_def old_map_def
        old_map_updated_def getitem_def setdefault_def contains_def py_append_def)

theorem filename_never_changes_witness:
  "index_walk [''components.js''] (walk sample_tree [''src'']) (old_map, []) =
     Inr (old_map_updated, [NewDuplicate ''Widget'', NewDuplicate ''Widget''])
   \<and> written (updateMapFile (Holds old_map) [''components.js''] [''src''] sample_tree) =
       Some old_map_updated
   \<and> py_get old_map ''Widget'' = Some (JObj [(''filename'', JStr ''old/Widget.stl'')])
   \<and> (\<exists>e'. py_get old_map_updated ''Widget'' = Some e'
          \<and> py_get e' ''filename'' = Some (JStr ''old/Widget.stl'')
          \<and> prefix [] (duplicates e'))
   \<and> model_files [''components.js''] (walk sample_tree [''src'']) =
       [] @ (''Widget'', ''src/foo/Widget.stl'') # [(''Widget'', ''src/bar/Widget.STL'')]
   \<and> (\<exists>cm' out'. index_walk [''components.js''] (walk sample_tree [''src'']) (JObj [], []) =
          Inr (cm', out')
        \<and> (\<exists>e'. py_get cm' ''Widget'' = Some e'
              \<and> py_get e' ''filename'' = Some (JStr ''src/foo/Widget.stl'')))"
proof -
  have run: "index_walk [''components.js''] (walk sample_tree [''src'']) (old_map, []) =
     Inr (old_map_updated, [NewDuplicate ''Widget'', NewDuplicate ''Widget''])"
    by (rule index_walk_old_map)
  have wr: "written (updateMapFile (Holds old_map) [''components.js''] [''src''] sample_tree) =
       Some old_map_updated"
    by (simp add: updateMapFile_def load_map_def can_write_sample run py_len_def
          old_map_updated_def)
  have old: "py_get old_map ''Widget'' = Some (JObj [(''filename'', JStr ''old/Widget.stl'')])"
    by (simp add: py_get_def old_map_def)
  have old_dups: "duplicates (JObj [(''filename'', JStr ''old/Widget.stl'')]) = []"
    by (simp add: duplicates_def py_get_def)
  have old_fn: "py_get (JObj [(''filename'', JStr ''old/Widget.stl'')]) ''filename'' =
      Some (JStr ''old/Widget.stl'')"
    by (simp add: py_get_def)
  have mf: "model_files [''components.js''] (walk sample_tree [''src'']) =
       [] @ (''Widget'', ''src/foo/Widget.stl'') # [(''Widget'', ''src/bar/Widget.STL'')]"
    by (simp add: model_files_sample)
  have fresh: "index_walk [''components.js''] (walk sample_tree [''src'']) (JObj [], []) =
      Inr (JObj [(''Widget'', JObj [(''filename'', JStr ''src/foo/Widget.stl''),
                  (''duplicates'', JArr [JStr ''src/bar/Widget.STL''])])],
           [NewModel ''Widget'', NewDuplicate ''Widget''])"
    by (simp add: index_walk_model_files model_files_sample record_model_def
        getitem_def setdefault_def contains_def py_append_def)
  have empty: "py_get (JObj []) ''Widget'' = None"
    by (simp add: py_get_def)
  from run wr old old_dups old_fn mf fresh empty
    filename_never_changes
      [where map_file_path = "[''components.js'']" and triples = "walk sample_tree [''src'']"
         and cm = old_map and out = "[]" and cm' = old_map_updated
         and out' = "[NewDuplicate ''Widget'', NewDuplicate ''Widget'']"
         and k = "''Widget''" and e = "JObj [(''filename'', JStr ''old/Widget.stl'')]"
         and destination_root = "[''src'']" and fs = sample_tree]
    filename_never_changes
      [where map_file_path = "[''components.js'']" and triples = "walk sample_tree [''src'']"
         and cm = "JObj []" and out = "[]"
         and cm' = "JObj [(''Widget'', JObj [(''filename'', JStr ''src/foo/Widget.stl''),
                  (''duplicates'', JArr [JStr ''src/bar/Widget.STL''])])]"
         and out' = "[NewModel ''Widget'', NewDuplicate ''Widget'']"
         and k = "''Widget''" and before = "[]" and rel = "''src/foo/Widget.stl''"
         and later = "[(''Widget'', ''src/bar/Widget.STL'')]"]
  show ?thesis by simp
qed

subsection \<open>Running the updater again\<close>






subsection \<open>Runs of the updater on example trees\<close>

lemmas record_simps =
  record_model_def getitem_def setdefault_def contains_def py_append_def







subsection \<open>Exceptions of the updater\<close>

lemma record_model_needs_filename:
  assumes "record_model name rel (cm, out) = Inr (cm', out')" and "py_get cm name = Some e"
  shows "py_get e ''filename'' \<noteq> None"
  using assms
  by (cases rule: record_model_cases) (auto simp: py_get_def indexed_def split: option.splits)


lemma record_model_error:
  assumes wt: "well_typed cm" and err: "record_model name rel (cm, out) = Inl x"
  shows "x = KeyError"
proof (rule ccontr)
  assume x: "x \<noteq> KeyError"
  from wt obtain al where cm: "cm = JObj al"
    by (cases cm) (auto simp: well_typed_def)
  from err cm obtain e where e: "map_of al name = Some e"
    by (cases "map_of al name") (auto simp: record_model_def)
  with wt cm have "well_typed_entry e" by (simp add: well_typed_def py_get_def)
  then obtain members where m: "e = JObj members"
    and d: "map_of members ''duplicates'' = None
            \<or> (\<exists>ds. map_of members ''duplicates'' = Some (JArr ds))"
    by (cases e) (auto simp: well_typed_entry_def split: option.splits json.splits)
  from err cm e m d x show False
    by (auto simp: record_model_def getitem_def setdefault_def contains_def py_append_def
          split: option.splits if_splits bool.splits)
qed

lemma key_error_entry:
  assumes "record_model name rel (cm, out) = Inl KeyError"
  shows "\<exists>members. py_get cm name = Some (JObj members) \<and> map_of members ''filename'' = None"
proof -
  from assms obtain al where cm: "cm = JObj al"
    by (cases cm) (auto simp: record_model_def)
  from assms cm obtain e where e: "map_of al name = Some e"
    by (cases "map_of al name") (auto simp: record_model_def)
  from assms cm e obtain members where m: "e = JObj members"
    by (cases e) (auto simp: record_model_def getitem_def)
  show ?thesis
  proof (cases "map_of members ''filename''")
    case None
    with cm e m show ?thesis by (simp add: py_get_def)
  next
    case (Some recorded)
    with assms cm e m have False
      by (auto simp: record_model_def getitem_def setdefault_def contains_def py_append_def
            split: option.splits if_splits bool.splits json.splits)
    then show ?thesis ..
  qed
qed

lemma record_model_well_typed:
  assumes step: "record_model name rel (cm, out) = Inr (cm', out')" and wt: "well_typed cm"
  shows "well_typed cm'"
  using step
proof (cases rule: record_model_cases)
  case (new al)
  with wt show ?thesis
    by (auto simp: well_typed_def py_get_def update_conv' well_typed_entry_def split: if_splits)
next
  case same
  with wt show ?thesis by simp
next
  case (dup al members recorded ds)
  with wt show ?thesis
    by (auto simp: well_typed_def py_get_def update_conv' well_typed_entry_def split: if_splits)
qed

lemma for_each_error:
  assumes "for_each body xs s = Inl x"
  shows "\<exists>before y later s1. xs = before @ y # later
           \<and> for_each body before s = Inr s1 \<and> body y s1 = Inl x"
  using assms
proof (induction xs arbitrary: s)
  case Nil
  then show ?case by simp
next
  case (Cons y ys)
  show ?case
  proof (cases "body y s")
    case (Inl x')
    with Cons.prems have "x' = x" by simp
    with Inl have "y # ys = [] @ y # ys \<and> for_each body [] s = Inr s \<and> body y s = Inl x"
      by simp
    then show ?thesis by blast
  next
    case (Inr s')
    with Cons.prems have "for_each body ys s' = Inl x" by simp
    from Cons.IH [OF this] obtain before z later s1 where
      "ys = before @ z # later" "for_each body before s' = Inr s1" "body z s1 = Inl x"
      by blast
    with Inr have "y # ys = (y # before) @ z # later
        \<and> for_each body (y # before) s = Inr s1 \<and> body z s1 = Inl x"
      by simp
    then show ?thesis by blast
  qed
qed

lemma for_each_well_typed:
  assumes run: "for_each (\<lambda>(name, rel). record_model name rel) xs (cm, out) = Inr (cm', out')"
    and wt: "well_typed cm"
  shows "well_typed cm'"
proof -
  have "well_typed (fst (cm', out'))"
  proof (rule for_each_inv [where P = "\<lambda>s. well_typed (fst s)", OF _ _ run])
    fix x s s'
    assume P: "well_typed (fst s)"
      and step: "(case x of (name, rel) \<Rightarrow> record_model name rel) s = Inr s'"
    obtain name rel where xe: "x = (name, rel)" by (cases x)
    obtain c1 o1 c2 o2 where se: "s = (c1, o1)" "s' = (c2, o2)" by (cases s; cases s') auto
    from step xe se have "record_model name rel (c1, o1) = Inr (c2, o2)" by simp
    moreover from P se have "well_typed c1" by simp
    ultimately have "well_typed c2" by (rule record_model_well_typed)
    with se show "well_typed (fst s')" by simp
  next
    from wt show "well_typed (fst (cm, out))" by simp
  qed
  then show ?thesis by simp
qed

text \<open>An entry without \<^verbatim>\<open>filename\<close> was loaded as it is: no step made or changed it.\<close>

lemma for_each_lacking:
  assumes run: "for_each (\<lambda>(name, rel). record_model name rel) xs (cm, out) = Inr (cm', out')"
    and e: "py_get cm' k = Some e" and lacks: "py_get e ''filename'' = None"
  shows "py_get cm k = Some e"
proof -
  let ?R = "\<lambda>s s' :: json \<times> notice list.
     \<forall>k e. py_get (fst s') k = Some e \<and> py_get e ''filename'' = None
       \<longrightarrow> py_get (fst s) k = Some e"
  have "?R (cm, out) (cm', out')"
  proof (rule for_each_rel [where R = ?R, OF _ _ _ run])
    fix x s s'
    assume step: "(case x of (name, rel) \<Rightarrow> record_model name rel) s = Inr s'"
    obtain name rel where xe: "x = (name, rel)" by (cases x)
    obtain c1 o1 c2 o2 where se: "s = (c1, o1)" "s' = (c2, o2)" by (cases s; cases s') auto
    from step xe se have st: "record_model name rel (c1, o1) = Inr (c2, o2)" by simp
    have "py_get c1 k = Some e" if a: "py_get c2 k = Some e" "py_get e ''filename'' = None"
      for k e
    proof (cases "k = name")
      case False
      with st a show ?thesis by (simp add: record_model_other)
    next
      case True
      show ?thesis
      proof (cases "py_get c1 name")
        case None
        from record_model_new [OF st None] a True show ?thesis
          by (auto simp: py_get_def)
      next
        case (Some e0)
        from record_model_old [OF st Some] record_model_needs_filename [OF st Some] a True
        show ?thesis by auto
      qed
    qed
    with se show "?R s s'" by simp
  qed blast+
  with e lacks show ?thesis by simp
qed

lemma raised_run:
  "raised (updateMapFile (Holds cm) map_file_path destination_root fs) = Some x \<longleftrightarrow>
     for_each (\<lambda>(name, rel). record_model name rel)
       (model_files map_file_path (walk fs destination_root)) (cm, []) = Inl x
     \<or> (\<exists>cm' out'. for_each (\<lambda>(name, rel). record_model name rel)
           (model_files map_file_path (walk fs destination_root)) (cm, []) = Inr (cm', out')
          \<and> (if can_write fs map_file_path then py_len cm' = Inl x else x = IOError))"
  by (auto simp: updateMapFile_def load_map_def index_walk_model_files
        split: sum.splits prod.splits if_splits)

lemma py_len_error: "py_len v = Inl x \<Longrightarrow> x = TypeError"
  by (cases v) (auto simp: py_len_def)

lemma lacking_fails:
  assumes e: "py_get cm k = Some e" and lacks: "py_get e ''filename'' = None"
    and x: "(k, rel) \<in> set xs"
  shows "\<exists>x. for_each (\<lambda>(name, rel). record_model name rel) xs (cm, out) = Inl x"
proof (cases "for_each (\<lambda>(name, rel). record_model name rel) xs (cm, out)")
  case (Inl x)
  then show ?thesis by simp
next
  case (Inr s')
  from x obtain before later where xs: "xs = before @ (k, rel) # later"
    by (auto dest: split_list)
  with Inr obtain s1 s2 where
    r1: "for_each (\<lambda>(name, rel). record_model name rel) before (cm, out) = Inr s1" and
    r2: "record_model k rel s1 = Inr s2"
    by (auto simp: for_each_append split: sum.splits)
  obtain cm1 out1 cm2 out2 where s: "s1 = (cm1, out1)" "s2 = (cm2, out2)"
    by (cases s1; cases s2) auto
  from r1 s have "map_kept cm cm1" by (auto dest: for_each_kept)
  with e obtain e1 where "py_get cm1 k = Some e1" "entry_kept e e1"
    unfolding map_kept_def by blast
  with lacks have "py_get cm1 k = Some e1" "py_get e1 ''filename'' = None"
    by (simp_all add: entry_kept_def)
  with r2 s have False
    by (auto dest: record_model_needs_filename)
  then show ?thesis ..
qed

text \<open>
  C10 as stated: when an entry of the loaded map has the model name of a file of the tree
  and no \<^verbatim>\<open>filename\<close>, the updater fails with the lookup error. It does not hold:
  in \<open>null_duplicates_map\<close> the \<^verbatim>\<open>Nut\<close> entry has no \<^verbatim>\<open>filename\<close> and \<^verbatim>\<open>Nut.stl\<close> is in
  the tree, but the walk meets \<^verbatim>\<open>Bolt.stl\<close> first, whose entry has \<^verbatim>\<open>null\<close> as
  \<^verbatim>\<open>duplicates\<close>, and the test \<^verbatim>\<open>model_file_relpath not in dupes\<close> raises a type error.
\<close>

theorem other_error_comes_first:
  "py_get null_duplicates_map ''Nut'' = Some (JObj [])
   \<and> ''Nut'' \<in> model_names (walk parts_tree [''lib''])
   \<and> updateMapFile (Holds null_duplicates_map) [''components.js''] [''lib''] parts_tree =
       \<lparr>written = None, printed = [], raised = Some TypeError\<rparr>"
  by (simp add: py_get_def null_duplicates_map_def model_names_def walk_files_def walk_def
        parts_tree_def index_simps)

text \<open>
  C10, amended. When an entry of the loaded map has the model name of a model file of the
  tree and is an object without \<^verbatim>\<open>filename\<close>, the updater fails before it writes the
  map file. The exception is the lookup error when the loaded map is well typed (every
  entry an object whose \<^verbatim>\<open>duplicates\<close>, if any, is a list). And the lookup error is
  raised only in that case: a run that ends in it has loaded an entry without
  \<^verbatim>\<open>filename\<close> under the model name of a model file of the tree.
\<close>

theorem missing_filename_fails:
  "(py_get cm k = Some (JObj members) \<and> map_of members ''filename'' = None
      \<and> k \<in> model_names (walk fs destination_root)
    \<longrightarrow> written (updateMapFile (Holds cm) map_file_path destination_root fs) = None
        \<and> raised (updateMapFile (Holds cm) map_file_path destination_root fs) \<noteq> None
        \<and> (well_typed cm \<longrightarrow>
             raised (updateMapFile (Holds cm) map_file_path destination_root fs)
               = Some KeyError))
   \<and> (raised (updateMapFile (Holds cm) map_file_path destination_root fs) = Some KeyError
      \<longrightarrow> (\<exists>k members. k \<in> model_names (walk fs destination_root)
             \<and> py_get cm k = Some (JObj members) \<and> map_of members ''filename'' = None))"
proof (intro conjI impI)
  let ?xs = "model_files map_file_path (walk fs destination_root)"
  let ?run = "for_each (\<lambda>(name, rel). record_model name rel) ?xs (cm, [])"
  assume a: "py_get cm k = Some (JObj members) \<and> map_of members ''filename'' = None
      \<and> k \<in> model_names (walk fs destination_root)"
  then obtain rel where "(k, rel) \<in> set ?xs"
    by (auto simp: model_names_files [of _ map_file_path])
  moreover from a have "py_get (JObj members) ''filename'' = None" by (simp add: py_get_def)
  ultimately obtain x where x: "?run = Inl x"
    using a lacking_fails [of cm k "JObj members" rel ?xs "[]"] by blast
  then show "written (updateMapFile (Holds cm) map_file_path destination_root fs) = None"
    and "raised (updateMapFile (Holds cm) map_file_path destination_root fs) \<noteq> None"
    by (simp_all add: updateMapFile_def load_map_def index_walk_model_files)
  assume wt: "well_typed cm"
  from for_each_error [OF x] obtain before y later s1 where
    r1: "for_each (\<lambda>(name, rel). record_model name rel) before (cm, []) = Inr s1" and
    r2: "(case y of (name, rel) \<Rightarrow> record_model name rel) s1 = Inl x"
    by blast
  obtain cm1 out1 name r where s: "s1 = (cm1, out1)" "y = (name, r)"
    by (cases s1; cases y) auto
  from r1 s wt have "well_typed cm1" by (auto dest: for_each_well_typed)
  with r2 s have "x = KeyError" by (auto dest: record_model_error)
  with x show "raised (updateMapFile (Holds cm) map_file_path destination_root fs)
      = Some KeyError"
    by (simp add: updateMapFile_def load_map_def index_walk_model_files)
next
  let ?xs = "model_files map_file_path (walk fs destination_root)"
  assume "raised (updateMapFile (Holds cm) map_file_path destination_root fs) = Some KeyError"
  then have x: "for_each (\<lambda>(name, rel). record_model name rel) ?xs (cm, []) = Inl KeyError"
    by (auto simp: raised_run dest: py_len_error split: if_splits)
  from for_each_error [OF x] obtain before y later s1 where
    xs: "?xs = before @ y # later" and
    r1: "for_each (\<lambda>(name, rel). record_model name rel) before (cm, []) = Inr s1" and
    r2: "(case y of (name, rel) \<Rightarrow> record_model name rel) s1 = Inl KeyError"
    by blast
  obtain cm1 out1 name r where s: "s1 = (cm1, out1)" "y = (name, r)"
    by (cases s1; cases y) auto
  from r2 s obtain members where m: "py_get cm1 name = Some (JObj members)"
    "map_of members ''filename'' = None"
    by (auto dest: key_error_entry)
  then have "py_get (JObj members) ''filename'' = None" by (simp add: py_get_def)
  with r1 s m have "py_get cm name = Some (JObj members)"
    by (auto dest: for_each_lacking)
  moreover from xs s have "name \<in> model_names (walk fs destination_root)"
    by (simp add: model_names_files [of _ map_file_path])
  ultimately show "\<exists>k members. k \<in> model_names (walk fs destination_root)
             \<and> py_get cm k = Some (JObj members) \<and> map_of members ''filename'' = None"
    using m by blast
qed

theorem missing_filename_fails_witness:
  "py_get nut_map ''Nut'' = Some (JObj [])
   \<and> ''Nut'' \<in> model_names (walk parts_tree [''lib''])
   \<and> well_typed nut_map
   \<and> written (updateMapFile (Holds nut_map) [''components.js''] [''lib''] parts_tree) = None
   \<and> raised (updateMapFile (Holds nut_map) [''components.js''] [''lib''] parts_tree)
       = Some KeyError"
proof -
  have nut: "py_get nut_map ''Nut'' = Some (JObj [])"
    by (simp add: py_get_def nut_map_def)
  have empty: "map_of ([] :: (string \<times> json) list) ''filename'' = None"
    by simp
  have names: "''Nut'' \<in> model_names (walk parts_tree [''lib''])"
    by (simp add: model_names_def walk_files_def walk_def parts_tree_def splitext_def
          skip_dots.simps model_ext_def)
  have wt: "well_typed nut_map"
    by (auto simp: well_typed_def nut_map_def py_get_def well_typed_entry_def split: if_splits)
  note T = missing_filename_fails
      [where cm = nut_map and k = "''Nut''" and members = "[]" and fs = parts_tree
         and destination_root = "[''lib'']" and map_file_path = "[''components.js'']"]
  from T [THEN conjunct1, THEN mp, OF conjI [OF nut conjI [OF empty names]]] wt
  have w: "written (updateMapFile (Holds nut_map) [''components.js''] [''lib''] parts_tree)
      = None"
    and r: "raised (updateMapFile (Holds nut_map) [''components.js''] [''lib''] parts_tree)
       = Some KeyError"
    by blast+
  from T [THEN conjunct2, THEN mp, OF r]
  have "\<exists>k members. k \<in> model_names (walk parts_tree [''lib''])
      \<and> py_get nut_map k = Some (JObj members) \<and> map_of members ''filename'' = None" .
  from nut names wt w r show ?thesis by (intro conjI)
qed

subsection \<open>The keys after a run\<close>




subsection \<open>The walk finds the model files that are present\<close>








subsection \<open>Relative paths\<close>

lemma split_sep_not_Nil: "split_sep s \<noteq> []"
  by (induction s) (auto split: list.splits)

lemma split_sep_plain: "CHR ''/'' \<notin> set c \<Longrightarrow> split_sep c = [c]"
  by (induction c) auto

lemma split_sep_join:
  "CHR ''/'' \<notin> set c \<Longrightarrow> split_sep (c @ CHR ''/'' # s) = c # split_sep s"
  by (induction c) (auto split: list.splits)

lemma split_join_comps:
  "cs \<noteq> [] \<Longrightarrow> \<forall>c \<in> set cs. CHR ''/'' \<notin> set c \<Longrightarrow> split_sep (join_comps cs) = cs"
proof (induction cs rule: join_comps.induct)
  case 1
  then show ?case by simp
next
  case (2 c)
  then show ?case by (simp add: split_sep_plain)
next
  case (3 c v va)
  then show ?case by (simp add: split_sep_join del: split_sep.simps)
qed

lemma normpath_loop_append:
  "normpath_loop acc (xs @ ys) = normpath_loop (normpath_loop acc xs) ys"
  by (induction xs arbitrary: acc) auto

lemma normpath_loop_names:
  "\<forall>c \<in> set xs. c \<notin> {'''', ''.'', ''..''} \<Longrightarrow> normpath_loop acc xs = acc @ xs"
  by (induction xs arbitrary: acc) auto

lemma normpath_loop_pardirs:
  "n \<le> length acc \<Longrightarrow> \<forall>c \<in> set acc. c \<noteq> ''..'' \<Longrightarrow>
     normpath_loop acc (replicate n ''..'') = take (length acc - n) acc"
proof (induction n arbitrary: acc)
  case 0
  then show ?case by simp
next
  case (Suc n)
  then have ne: "acc \<noteq> []" by auto
  with Suc.prems have "last acc \<noteq> ''..''" by simp
  moreover from Suc.prems have "n \<le> length (butlast acc)" by simp
  moreover from Suc.prems have "\<forall>c \<in> set (butlast acc). c \<noteq> ''..''"
    by (auto dest: in_set_butlastD)
  ultimately have "normpath_loop acc (replicate (Suc n) ''..'')
      = take (length (butlast acc) - n) (butlast acc)"
    using ne Suc.IH [of "butlast acc"] by simp
  also have "\<dots> = take (length acc - Suc n) acc"
    by (simp add: butlast_conv_take min_def)
  finally show ?case .
qed

lemma commonprefix_len_le: "commonprefix_len xs ys \<le> length xs"
  by (induction xs ys rule: commonprefix_len.induct) auto

lemma commonprefix_len_take:
  "take (commonprefix_len xs ys) xs = take (commonprefix_len xs ys) ys"
  by (induction xs ys rule: commonprefix_len.induct) auto

lemma normpath_rel_list:
  assumes p: "\<forall>c \<in> set p. c \<notin> {'''', ''.'', ''..''}"
    and s: "\<forall>c \<in> set start. c \<notin> {'''', ''.'', ''..''}"
  shows "normpath (start @ rel_list p start) = p"
proof -
  let ?i = "commonprefix_len start p"
  let ?n = "length start - ?i"
  have i: "?i \<le> length start" by (rule commonprefix_len_le)
  from s have s': "\<forall>c \<in> set start. c \<noteq> ''..''" by auto
  from p have d: "\<forall>c \<in> set (drop ?i p). c \<notin> {'''', ''.'', ''..''}"
    by (auto dest: in_set_dropD)
  have "normpath (start @ rel_list p start)
      = normpath_loop (normpath_loop (normpath_loop [] start) (replicate ?n ''..'')) (drop ?i p)"
    by (simp add: normpath_def rel_list_def Let_def normpath_loop_append)
  also have "normpath_loop [] start = start"
    using s by (simp add: normpath_loop_names)
  also have "normpath_loop start (replicate ?n ''..'') = take (length start - ?n) start"
    using s' by (simp add: normpath_loop_pardirs)
  also have "length start - ?n = ?i" using i by simp
  also have "take ?i start = take ?i p" by (rule commonprefix_len_take)
  also have "normpath_loop (take ?i p) (drop ?i p) = take ?i p @ drop ?i p"
    using d by (rule normpath_loop_names)
  finally show ?thesis by simp
qed

lemma relpath_resolves:
  assumes p: "\<forall>c \<in> set p. c \<notin> {'''', ''.'', ''..''} \<and> CHR ''/'' \<notin> set c"
    and s: "\<forall>c \<in> set start. c \<notin> {'''', ''.'', ''..''} \<and> CHR ''/'' \<notin> set c"
  shows "normpath (start @ split_sep (relpath p start)) = p"
proof (cases "rel_list p start = []")
  case True
  have "normpath (start @ rel_list p start) = p"
    using p s by (intro normpath_rel_list) auto
  with True have "normpath start = p" by simp
  moreover have "normpath (start @ [''.'']) = normpath start"
    by (simp add: normpath_def normpath_loop_append)
  ultimately show ?thesis using True by (simp add: relpath_def)
next
  case False
  have "set (rel_list p start) \<subseteq> insert ''..'' (set p)"
    by (auto simp: rel_list_def Let_def dest: in_set_dropD)
  moreover have "CHR ''/'' \<notin> set ''..''" by simp
  moreover from p have "\<forall>c \<in> set p. CHR ''/'' \<notin> set c" by blast
  ultimately have "\<forall>c \<in> set (rel_list p start). CHR ''/'' \<notin> set c"
    by blast
  with False have "split_sep (relpath p start) = rel_list p start"
    by (simp add: relpath_def split_join_comps)
  moreover have "normpath (start @ rel_list p start) = p"
    using p s by (intro normpath_rel_list) auto
  ultimately show ?thesis by simp
qed

lemma model_files_member:
  assumes "(root, dirs, files) \<in> set triples" and "filename \<in> set files"
    and "model_ext (snd (splitext filename))"
  shows "(fst (splitext filename), relpath (root @ [filename]) (dirname map_file_path))
           \<in> set (model_files map_file_path triples)"
proof -
  from assms(1,2) have "(root, filename) \<in> set (walk_files triples)"
    by (force simp: walk_files_def)
  with assms(3) show ?thesis
    by (force simp: model_files_def)
qed

text \<open>
  C8. After a run that wrote the map, every model file the walk met is recorded under its
  model name by its path relative to the directory of the map file: that path is the
  \<^verbatim>\<open>filename\<close> of the entry, or \<^verbatim>\<open>in\<close> its \<^verbatim>\<open>duplicates\<close>. The path is relative to that
  directory and to no other: appended to the directory of the map file and normalised, it
  gives the absolute path of the model file back (for components that are names: not
  empty, not \<^verbatim>\<open>.\<close> or \<^verbatim>\<open>..\<close>, and free of \<^verbatim>\<open>/\<close>).
\<close>

theorem stored_path_relative_to_map_dir:
  "(written (updateMapFile mf map_file_path destination_root fs) = Some cm'
      \<and> (root, dirs, files) \<in> set (walk fs destination_root) \<and> filename \<in> set files
      \<and> model_ext (snd (splitext filename))
    \<longrightarrow> (\<exists>e recorded. py_get cm' (fst (splitext filename)) = Some e
           \<and> py_get e ''filename'' = Some recorded
           \<and> (recorded = JStr (relpath (root @ [filename]) (dirname map_file_path))
                \<or> (\<exists>dupes. py_get e ''duplicates'' = Some dupes
                      \<and> contains dupes (relpath (root @ [filename]) (dirname map_file_path))
                          = Inr True))))
   \<and> ((\<forall>c \<in> set (root @ [filename]) \<union> set (dirname map_file_path).
          c \<notin> {'''', ''.'', ''..''} \<and> CHR ''/'' \<notin> set c)
      \<longrightarrow> normpath (dirname map_file_path
                      @ split_sep (relpath (root @ [filename]) (dirname map_file_path)))
            = root @ [filename])"
proof (intro conjI impI)
  let ?rel = "relpath (root @ [filename]) (dirname map_file_path)"
  let ?xs = "model_files map_file_path (walk fs destination_root)"
  assume a: "written (updateMapFile mf map_file_path destination_root fs) = Some cm'
      \<and> (root, dirs, files) \<in> set (walk fs destination_root) \<and> filename \<in> set files
      \<and> model_ext (snd (splitext filename))"
  then obtain cm out' where
    "for_each (\<lambda>(name, rel). record_model name rel) ?xs (cm, []) = Inr (cm', out')"
    by (auto simp: written_run)
  then have "\<forall>(name, rel) \<in> set ?xs. indexed cm' name rel"
    by (rule for_each_indexed)
  moreover from a have "(fst (splitext filename), ?rel) \<in> set ?xs"
    by (auto intro: model_files_member)
  ultimately have "indexed cm' (fst (splitext filename)) ?rel" by blast
  then show "\<exists>e recorded. py_get cm' (fst (splitext filename)) = Some e
           \<and> py_get e ''filename'' = Some recorded
           \<and> (recorded = JStr ?rel
                \<or> (\<exists>dupes. py_get e ''duplicates'' = Some dupes
                      \<and> contains dupes ?rel = Inr True))"
    by (auto simp: indexed_def split: option.splits)
next
  assume "\<forall>c \<in> set (root @ [filename]) \<union> set (dirname map_file_path).
          c \<notin> {'''', ''.'', ''..''} \<and> CHR ''/'' \<notin> set c"
  then have "\<forall>c \<in> set (root @ [filename]). c \<notin> {'''', ''.'', ''..''} \<and> CHR ''/'' \<notin> set c"
    and "\<forall>c \<in> set (dirname map_file_path). c \<notin> {'''', ''.'', ''..''} \<and> CHR ''/'' \<notin> set c"
    by blast+
  then show "normpath (dirname map_file_path
                      @ split_sep (relpath (root @ [filename]) (dirname map_file_path)))
            = root @ [filename]"
    by (rule relpath_resolves)
qed

theorem stored_path_relative_to_map_dir_witness:
  "written (updateMapFile Missing [''lib'', ''components.js''] [''src''] sample_tree) =
     Some (JObj [(''Widget'',
                  JObj [(''filename'', JStr ''../src/foo/Widget.stl''),
                        (''duplicates'', JArr [JStr ''../src/bar/Widget.STL''])])])
   \<and> ([''src'', ''foo''], [], [''Widget.stl'']) \<in> set (walk sample_tree [''src''])
   \<and> relpath ([''src'', ''foo''] @ [''Widget.stl'']) (dirname [''lib'', ''components.js''])
       = ''../src/foo/Widget.stl''
   \<and> relpath ([''src'', ''foo''] @ [''Widget.stl'']) [''src''] = ''foo/Widget.stl''
   \<and> normpath (dirname [''lib'', ''components.js'']
                @ split_sep (relpath ([''src'', ''foo''] @ [''Widget.stl''])
                               (dirname [''lib'', ''components.js''])))
       = [''src'', ''foo''] @ [''Widget.stl'']"
proof -
  let ?cm' = "JObj [(''Widget'',
                  JObj [(''filename'', JStr ''../src/foo/Widget.stl''),
                        (''duplicates'', JArr [JStr ''../src/bar/Widget.STL''])])]"
  have mf: "model_files [''lib'', ''components.js''] (walk sample_tree [''src'']) =
     [(''Widget'', ''../src/foo/Widget.stl''), (''Widget'', ''../src/bar/Widget.STL'')]"
    by (simp add: walk_sample model_files_def walk_files_def splitext_def skip_dots.simps
          model_ext_def relpath_def rel_list_def dirname_def)
  have cw: "can_write sample_tree [''lib'', ''components.js'']"
    by (simp add: can_write_def isdir_def dirname_def sample_tree_def)
  have wr: "written (updateMapFile Missing [''lib'', ''components.js''] [''src''] sample_tree)
      = Some ?cm'"
    by (simp add: updateMapFile_def load_map_def cw index_walk_model_files mf record_simps
          py_len_def)
  have mem: "([''src'', ''foo''], [], [''Widget.stl'']) \<in> set (walk sample_tree [''src''])"
    by (simp add: walk_sample)
  have member: "''Widget.stl'' \<in> set [''Widget.stl'']" by simp
  have ext: "model_ext (snd (splitext ''Widget.stl''))"
    by (simp add: splitext_def skip_dots.simps model_ext_def)
  have rel: "relpath ([''src'', ''foo''] @ [''Widget.stl''])
      (dirname [''lib'', ''components.js'']) = ''../src/foo/Widget.stl''"
    by (simp add: relpath_def rel_list_def dirname_def)
  have rel': "relpath ([''src'', ''foo''] @ [''Widget.stl'']) [''src''] = ''foo/Widget.stl''"
    by (simp add: relpath_def rel_list_def)
  have names: "\<forall>c \<in> set ([''src'', ''foo''] @ [''Widget.stl''])
        \<union> set (dirname [''lib'', ''components.js'']).
      c \<notin> {'''', ''.'', ''..''} \<and> CHR ''/'' \<notin> set c"
    by (simp add: dirname_def)
  note T = stored_path_relative_to_map_dir
      [where mf = Missing and map_file_path = "[''lib'', ''components.js'']"
         and destination_root = "[''src'']" and fs = sample_tree and cm' = ?cm'
         and root = "[''src'', ''foo'']" and dirs = "[]" and files = "[''Widget.stl'']"
         and filename = "''Widget.stl''"]
  from T [THEN conjunct1, THEN mp, OF conjI [OF wr conjI [OF mem conjI [OF member ext]]]]
  have "\<exists>e recorded. py_get ?cm' (fst (splitext ''Widget.stl'')) = Some e
           \<and> py_get e ''filename'' = Some recorded
           \<and> (recorded = JStr (relpath ([''src'', ''foo''] @ [''Widget.stl''])
                                 (dirname [''lib'', ''components.js'']))
                \<or> (\<exists>dupes. py_get e ''duplicates'' = Some dupes
                      \<and> contains dupes (relpath ([''src'', ''foo''] @ [''Widget.stl''])
                                           (dirname [''lib'', ''components.js'']))
                          = Inr True))" .
  from T [THEN conjunct2, THEN mp, OF names]
  have resolved: "normpath (dirname [''lib'', ''components.js'']
                @ split_sep (relpath ([''src'', ''foo''] @ [''Widget.stl''])
                               (dirname [''lib'', ''components.js''])))
       = [''src'', ''foo''] @ [''Widget.stl'']" .
  from wr mem rel rel' resolved show ?thesis by (intro conjI)
qed

subsection \<open>Further runs on the example trees\<close>

theorem dotfile_not_a_model_witness:
  "copy_model [''src''] [''lib''] [''src''] ''.stl'' (sample_tree, []) = Inr (sample_tree, [])
   \<and> index_model [''components.js''] [''src''] ''.STL'' (fresh_map, []) = Inr (fresh_map, [])"
  using dotfile_not_a_model
    [where source_root = "[''src'']" and destination_root = "[''lib'']" and root = "[''src'']"
       and st = "(sample_tree, [])" and map_file_path = "[''components.js'']"
       and st' = "(fresh_map, [])"]
  by blast


end
